theory Spec2Isabelle
  imports Main "HOL-Library.Char_ord" "HOL-Library.List_Lexorder"
begin

section \<open>JavaScript values used by the rules\<close>

text \<open>
  Strings are \<open>char list\<close>. The relational operator \<open><\<close> of JavaScript on two strings
  compares code units lexicographically, which is the order of \<open>HOL-Library.List_Lexorder\<close>
  over \<open>HOL-Library.Char_ord\<close>. \<open>toLowerCase\<close> is modelled on the ASCII letters; every
  other character is left as it is.
\<close>

definition lowerChar :: "char \<Rightarrow> char" where
  "lowerChar c =
     (if CHR ''A'' \<le> c \<and> c \<le> CHR ''Z'' then char_of (of_char c + (32::nat)) else c)"

definition toLowerCase :: "string \<Rightarrow> string" where
  "toLowerCase s = map lowerChar s"

text \<open>\<open>String.prototype.slice(a, b)\<close> for non-negative indices; empty when \<open>b \<le> a\<close>.\<close>

definition slice :: "string \<Rightarrow> nat \<Rightarrow> nat \<Rightarrow> string" where
  "slice s a b = take (b - a) (drop a s)"

definition startsWith :: "string \<Rightarrow> string \<Rightarrow> bool" where
  "startsWith s p = (take (length p) s = p)"

definition endsWith :: "string \<Rightarrow> string \<Rightarrow> bool" where
  "endsWith s p = (length p \<le> length s \<and> drop (length s - length p) s = p)"

text \<open>The exceptions the rules can raise.\<close>

datatype error = UnexpectedSortStrategy | TypeError

definition bind :: "error + 'a \<Rightarrow> ('a \<Rightarrow> error + 'b) \<Rightarrow> error + 'b" where
  "bind m f = (case m of Inl e \<Rightarrow> Inl e | Inr x \<Rightarrow> f x)"

text \<open>\<open>xs[i]\<close>: \<open>undefined\<close> (here \<open>None\<close>) out of range.\<close>

fun nthOpt :: "'a list \<Rightarrow> nat \<Rightarrow> 'a option" where
  "nthOpt [] i = None"
| "nthOpt (x # xs) 0 = Some x"
| "nthOpt (x # xs) (Suc i) = nthOpt xs i"

section \<open>utils.js\<close>

text \<open>
  A node location: its \<open>range\<close> (field \<open>node_range\<close>) and the ranges of the comments that
  \<open>source.getCommentsBefore(node)\<close> returns for it (the host's accessor, taken as data).
\<close>

type_synonym range = "nat \<times> nat"

record loc =
  node_range :: range
  commentsBefore :: "range list"

text \<open>\<open>getSpanningRange(nodes)\<close>; \<open>nodes[0].range\<close> throws on an empty array.\<close>

definition getSpanningRange :: "range list \<Rightarrow> error + range" where
  "getSpanningRange nodes =
     (case nodes of [] \<Rightarrow> Inl TypeError | n # _ \<Rightarrow> Inr (fst n, snd (last nodes)))"

definition getCommentedText :: "string \<Rightarrow> loc \<Rightarrow> error + string" where
  "getCommentedText source node =
     bind (case commentsBefore node of
             [] \<Rightarrow> getSpanningRange [node_range node, node_range node]
           | c # _ \<Rightarrow> getSpanningRange [c, node_range node])
          (\<lambda>r. Inr (slice source (fst r) (snd r)))"

definition getText :: "string \<Rightarrow> loc \<Rightarrow> string" where
  "getText source node = slice source (fst (node_range node)) (snd (node_range node))"

definition getTextBetweenCommentedNodes :: "string \<Rightarrow> loc option \<Rightarrow> loc option \<Rightarrow> error + string" where
  "getTextBetweenCommentedNodes source nodeA nodeB =
     (case nodeB of
        None \<Rightarrow> Inr ''''
      | Some b \<Rightarrow>
          (case nodeA of
             None \<Rightarrow> Inl TypeError
           | Some a \<Rightarrow>
               (let nextNode = (case commentsBefore b of [] \<Rightarrow> node_range b | c # _ \<Rightarrow> c)
                in Inr (slice source (snd (node_range a)) (fst nextNode)))))"

text \<open>
  The value a sort function returns: a string, or one of the two numbers the sorter
  singles out.
\<close>

datatype sort_name = Str string | Infinity | NegInfinity

text \<open>
  \<open>aName < bName\<close> is reached in \<open>getSorter\<close> only when neither side is an infinity,
  that is on two strings.
\<close>

fun js_lt :: "sort_name \<Rightarrow> sort_name \<Rightarrow> bool" where
  "js_lt (Str a) (Str b) = (a < b)"
| "js_lt _ _ = False"

definition getSorter :: "('a \<Rightarrow> error + sort_name) \<Rightarrow> 'a \<Rightarrow> 'a \<Rightarrow> error + int" where
  "getSorter sortFunction a b =
     bind (sortFunction a) (\<lambda>aName.
     bind (sortFunction b) (\<lambda>bName.
       Inr (if aName = Infinity \<or> bName = NegInfinity then 1
            else if bName = Infinity \<or> aName = NegInfinity then - 1
            else if aName = bName then 0 else if js_lt aName bName then - 1 else 1)))"

text \<open>
  \<open>Array.prototype.sort(compare)\<close>: a stable insertion sort. An element stays in front
  of a later one unless the comparator returns a positive number for the pair; an exception
  of the comparator ends the sort. For a comparator that is consistent with a total
  preorder every conforming stable sort returns this list.
\<close>

fun insertBy :: "('a \<Rightarrow> 'a \<Rightarrow> error + int) \<Rightarrow> 'a \<Rightarrow> 'a list \<Rightarrow> error + 'a list" where
  "insertBy cmp x [] = Inr [x]"
| "insertBy cmp x (y # ys) =
     bind (cmp x y) (\<lambda>c.
       if c \<le> 0 then Inr (x # y # ys)
       else bind (insertBy cmp x ys) (\<lambda>zs. Inr (y # zs)))"

fun sortBy :: "('a \<Rightarrow> 'a \<Rightarrow> error + int) \<Rightarrow> 'a list \<Rightarrow> error + 'a list" where
  "sortBy cmp [] = Inr []"
| "sortBy cmp (x # xs) = bind (sortBy cmp xs) (insertBy cmp x)"

text \<open>
  \<open>xs.reduce((prev, cur) => ...)\<close> without an initial value, for a callback that always
  returns \<open>cur\<close> and acts on the enclosing state: the callback runs on every adjacent pair,
  left to right; it does not run on a one-element array; an empty array throws.
\<close>

fun reducePairs :: "('a \<Rightarrow> 'a \<Rightarrow> 's \<Rightarrow> error + 's) \<Rightarrow> 'a list \<Rightarrow> 's \<Rightarrow> error + 's" where
  "reducePairs f [] st = Inl TypeError"
| "reducePairs f [x] st = Inr st"
| "reducePairs f (x # y # ys) st = bind (f x y st) (reducePairs f (y # ys))"

text \<open>
  The text a fixer emits: \<open>sorted.reduce((textBefore, newNode, idx) => textBefore + text +
  textAfter, '')\<close>, where \<open>text\<close> is the node's own text when the node is \<open>first\<close> and its
  commented text otherwise, and \<open>textAfter\<close> is the original text between the nodes at
  \<open>idx\<close> and \<open>idx + 1\<close> of \<open>original\<close>. Nodes are compared by value: distinct nodes of a
  tree have distinct ranges.
\<close>

fun rewriteFrom :: "string \<Rightarrow> loc option \<Rightarrow> loc list \<Rightarrow> nat \<Rightarrow> loc list \<Rightarrow> string \<Rightarrow> error + string" where
  "rewriteFrom source first original idx [] textBefore = Inr textBefore"
| "rewriteFrom source first original idx (newNode # rest) textBefore =
     bind (if Some newNode \<noteq> first then getCommentedText source newNode
           else Inr (getText source newNode)) (\<lambda>text.
     bind (getTextBetweenCommentedNodes source (nthOpt original idx) (nthOpt original (idx + 1)))
       (\<lambda>textAfter.
     rewriteFrom source first original (idx + 1) rest (textBefore @ text @ textAfter)))"

section \<open>sort-imports.js\<close>

datatype decl_group = SideEffect | External | Internal | StaticAsset

fun DECL_PRIORITIES :: "decl_group \<Rightarrow> nat" where
  "DECL_PRIORITIES SideEffect = 0"
| "DECL_PRIORITIES External = 1"
| "DECL_PRIORITIES Internal = 3"
| "DECL_PRIORITIES StaticAsset = 4"

definition DECL_TYPE_NAMES :: "string list" where
  "DECL_TYPE_NAMES = [''side effect'', ''external package'', ''internal'', ''static asset'']"

datatype specifier_type = ImportDefaultSpecifier | ImportNamespaceSpecifier | ImportSpecifier

record specifier =
  spec_type :: specifier_type
  local_name :: string
  imported_name :: string
  spec_loc :: loc

record import_decl =
  source_value :: string
  specifiers :: "specifier list"
  decl_loc :: loc

datatype statement = ImportDeclaration import_decl | OtherStatement loc

definition getImportSpecifierSortName :: "specifier \<Rightarrow> string" where
  "getImportSpecifierSortName node =
     (case spec_type node of
        ImportDefaultSpecifier \<Rightarrow> local_name node
      | ImportNamespaceSpecifier \<Rightarrow> local_name node
      | ImportSpecifier \<Rightarrow> imported_name node)"

definition isImportSideEffect :: "import_decl \<Rightarrow> bool" where
  "isImportSideEffect node = (specifiers node = [])"

text \<open>The callback of the reduce in \<open>getImportDeclarationSortName\<close>; \<open>None\<close> is \<open>null\<close>.\<close>

definition minSortName :: "string option \<Rightarrow> specifier \<Rightarrow> string option" where
  "minSortName sortName spec =
     (if spec_type spec = ImportSpecifier then
        (case sortName of
           None \<Rightarrow> Some (getImportSpecifierSortName spec)
         | Some n \<Rightarrow>
             if toLowerCase (getImportSpecifierSortName spec) < toLowerCase n
             then Some (getImportSpecifierSortName spec) else Some n)
      else sortName)"

definition getImportDeclarationSortName :: "import_decl \<Rightarrow> string option" where
  "getImportDeclarationSortName node =
     (if isImportSideEffect node then Some (source_value node)
      else (case specifiers node of
              [] \<Rightarrow> None
            | s0 # _ \<Rightarrow>
                if spec_type s0 = ImportDefaultSpecifier \<or> spec_type s0 = ImportNamespaceSpecifier
                then Some (getImportSpecifierSortName s0)
                else foldl minSortName None (specifiers node)))"

text \<open>
  The regular expression \<open>/\.(svg|woff|woff2|tts|eot|bmp|jpe?g|gif|png|json|txt)$/\<close>
  matches exactly the strings that end in a dot and one of the extensions.
\<close>

definition staticAssetExtensions :: "string list" where
  "staticAssetExtensions =
     [''svg'', ''woff'', ''woff2'', ''tts'', ''eot'', ''bmp'', ''jpg'', ''jpeg'', ''gif'',
      ''png'', ''json'', ''txt'']"

definition isStaticAssetSource :: "string \<Rightarrow> bool" where
  "isStaticAssetSource s = list_ex (\<lambda>ext. endsWith s (''.'' @ ext)) staticAssetExtensions"

text \<open>
  \<open>resolves\<close> stands for the probe \<open>require.resolve\<close>: whether it returns without
  throwing.
\<close>

definition isImportExternal :: "(string \<Rightarrow> bool) \<Rightarrow> import_decl \<Rightarrow> bool" where
  "isImportExternal resolves node =
     (if startsWith (source_value node) ''.'' then False else resolves (source_value node))"

definition getImportDeclarationSortIdx :: "(string \<Rightarrow> bool) \<Rightarrow> import_decl \<Rightarrow> nat" where
  "getImportDeclarationSortIdx resolves node =
     (let importSource = toLowerCase (source_value node) in
      if isImportSideEffect node then DECL_PRIORITIES SideEffect
      else if isStaticAssetSource importSource then DECL_PRIORITIES StaticAsset
      else if isImportExternal resolves node then DECL_PRIORITIES External
      else DECL_PRIORITIES Internal)"

text \<open>
  What \<open>context.report\<close> receives. \<open>data\<close> maps each placeholder to its value, \<open>None\<close>
  for \<open>undefined\<close>. \<open>fix_result\<close> is \<open>None\<close> when the report has no \<open>fix\<close> function, and
  otherwise what that function returns (the text replacements, each a range and its new
  text) or throws.
\<close>

type_synonym text_edit = "range \<times> string"

record 'n report =
  report_node :: 'n
  message :: string
  data :: "(string \<times> string option) list"
  fix_result :: "(error + text_edit list) option"

datatype import_node = DeclNode import_decl | SpecNode specifier

record options =
  opt_declarationSort :: "string option"
  opt_fix :: "bool option"

text \<open>The variables of \<open>Program\<close> that its callbacks assign, and the reports made so far.\<close>

record check_state =
  reports :: "import_node report list"
  lastUnsortedDeclaration :: "import_decl option"
  declarationsWithUnsortedSpecifiers :: "import_decl list"

text \<open>
  The callback of \<open>program.body.reduce\<close>: the accumulator is the array \<open>imports\<close> with its
  property \<open>nonImportFound\<close>, and the variable \<open>fixable\<close>.
\<close>

fun collectImport :: "import_decl list \<times> bool \<times> bool \<Rightarrow> statement \<Rightarrow> import_decl list \<times> bool \<times> bool" where
  "collectImport (imports, nonImportFound, fixable) (ImportDeclaration d) =
     (imports @ [d], nonImportFound, (if imports \<noteq> [] \<and> nonImportFound then False else fixable))"
| "collectImport (imports, nonImportFound, fixable) (OtherStatement l) =
     (if imports \<noteq> [] then (imports, True, fixable) else (imports, nonImportFound, fixable))"

text \<open>The number-to-string conversion of \<open>idx + name\<close>, for a natural number.\<close>

definition digitChar :: "nat \<Rightarrow> char" where
  "digitChar d = char_of (48 + d)"

fun numberToString :: "nat \<Rightarrow> string" where
  "numberToString n =
     (if n < 10 then [digitChar n] else numberToString (n div 10) @ [digitChar (n mod 10)])"

text \<open>The first part of the callback of \<open>imports.reduce\<close>: group, then name or source.\<close>

definition checkDeclarationOrder ::
  "(string \<Rightarrow> bool) \<Rightarrow> string \<Rightarrow> import_decl \<Rightarrow> import_decl \<Rightarrow> check_state \<Rightarrow> error + check_state" where
  "checkDeclarationOrder resolves declarationSort prevImport curImport st =
     (let curDeclarationSortIdx = getImportDeclarationSortIdx resolves curImport;
          prevDeclarationSortIdx = getImportDeclarationSortIdx resolves prevImport
      in
      if curDeclarationSortIdx < prevDeclarationSortIdx then
        Inr (st\<lparr>lastUnsortedDeclaration := Some curImport,
                reports := reports st @
                  [\<lparr>report_node = DeclNode curImport,
                    message = ''Expected {{a}} imports to be before {{b}} imports.'',
                    data = [(''a'', nthOpt DECL_TYPE_NAMES curDeclarationSortIdx),
                            (''b'', nthOpt DECL_TYPE_NAMES prevDeclarationSortIdx)],
                    fix_result = None\<rparr>]\<rparr>)
      else if curDeclarationSortIdx = prevDeclarationSortIdx then
        (if declarationSort = ''import'' then
           (case getImportDeclarationSortName curImport of
              None \<Rightarrow> Inl TypeError
            | Some curSortName \<Rightarrow>
                (case getImportDeclarationSortName prevImport of
                   None \<Rightarrow> Inl TypeError
                 | Some prevSortName \<Rightarrow>
                     if toLowerCase curSortName < toLowerCase prevSortName then
                       Inr (st\<lparr>lastUnsortedDeclaration := Some curImport,
                               reports := reports st @
                                 [\<lparr>report_node = DeclNode curImport,
                                   message = ''Expected '' @ [CHR 0x27] @ ''{{impA}}'' @ [CHR 0x27] @
                                     '' from '' @ [CHR 0x27] @ ''{{decA}}'' @ [CHR 0x27] @
                                     '' to be before '' @ [CHR 0x27] @ ''{{impB}}'' @ [CHR 0x27] @
                                     '' from '' @ [CHR 0x27] @ ''{{decB}}'' @ [CHR 0x27] @ ''.'',
                                   data = [(''impA'', Some curSortName), (''impB'', Some prevSortName),
                                           (''decA'', Some (source_value curImport)),
                                           (''decB'', Some (source_value prevImport))],
                                   fix_result = None\<rparr>]\<rparr>)
                     else Inr st))
         else if declarationSort = ''source'' then
           (let curSource = source_value curImport; prevSource = source_value prevImport in
            if toLowerCase curSource < toLowerCase prevSource then
              Inr (st\<lparr>lastUnsortedDeclaration := Some curImport,
                      reports := reports st @
                        [\<lparr>report_node = DeclNode curImport,
                          message = ''Expected imports from '' @ [CHR 0x27] @ ''{{a}}'' @ [CHR 0x27] @
                            '' to be before imports from '' @ [CHR 0x27] @ ''{{b}}'' @ [CHR 0x27],
                          data = [(''a'', Some curSource), (''b'', Some prevSource)],
                          fix_result = None\<rparr>]\<rparr>)
            else Inr st)
         else Inl UnexpectedSortStrategy)
      else Inr st)"

text \<open>
  The callback of \<open>sortableSpecifiers.reduce\<close>; its state is the flag \<open>isSorted\<close> and the
  state of \<open>Program\<close>.
\<close>

definition compareSpecifiers ::
  "bool \<Rightarrow> import_decl \<Rightarrow> specifier \<Rightarrow> specifier \<Rightarrow> bool \<times> check_state \<Rightarrow> error + bool \<times> check_state" where
  "compareSpecifiers fixable curImport prevSpec curSpec s =
     (case s of (isSorted, st) \<Rightarrow>
        if isSorted then
          (let curSortName = getImportSpecifierSortName curSpec;
               prevSortName = getImportSpecifierSortName prevSpec
           in
           if toLowerCase curSortName < toLowerCase prevSortName then
             Inr (False,
                  st\<lparr>lastUnsortedDeclaration := Some curImport,
                     declarationsWithUnsortedSpecifiers :=
                       (if fixable then declarationsWithUnsortedSpecifiers st @ [curImport]
                        else declarationsWithUnsortedSpecifiers st),
                     reports := reports st @
                       [\<lparr>report_node = SpecNode curSpec,
                         message = ''Expected '' @ [CHR 0x27] @ ''{{a}}'' @ [CHR 0x27] @
                           '' to be before '' @ [CHR 0x27] @ ''{{b}}'' @ [CHR 0x27],
                         data = [(''a'', Some curSortName), (''b'', Some prevSortName)],
                         fix_result = None\<rparr>]\<rparr>)
           else Inr (isSorted, st))
        else Inr (isSorted, st))"

text \<open>The second part of the callback of \<open>imports.reduce\<close>: the declaration's own specifiers.\<close>

definition checkSpecifierOrder :: "bool \<Rightarrow> import_decl \<Rightarrow> check_state \<Rightarrow> error + check_state" where
  "checkSpecifierOrder fixable curImport st =
     (if \<not> isImportSideEffect curImport then
        (let sortableSpecifiers = filter (\<lambda>s. spec_type s = ImportSpecifier) (specifiers curImport) in
         if length sortableSpecifiers \<ge> 2 then
           bind (reducePairs (compareSpecifiers fixable curImport) sortableSpecifiers (True, st))
                (\<lambda>r. Inr (snd r))
         else Inr st)
      else Inr st)"

definition compareImports ::
  "(string \<Rightarrow> bool) \<Rightarrow> string \<Rightarrow> bool \<Rightarrow> import_decl \<Rightarrow> import_decl \<Rightarrow> check_state \<Rightarrow> error + check_state" where
  "compareImports resolves declarationSort fixable prevImport curImport st =
     bind (checkDeclarationOrder resolves declarationSort prevImport curImport st)
          (checkSpecifierOrder fixable curImport)"

text \<open>The fix of one declaration whose specifiers are out of order.\<close>

definition specifierSortKey :: "specifier \<Rightarrow> error + sort_name" where
  "specifierSortKey node = Inr (Str (toLowerCase (getImportSpecifierSortName node)))"

definition fixSpecifiers :: "string \<Rightarrow> import_decl \<Rightarrow> error + text_edit" where
  "fixSpecifiers source imp =
     (let specs = filter (\<lambda>spec. spec_type spec = ImportSpecifier) (specifiers imp) in
      bind (getSpanningRange (map (\<lambda>n. node_range (spec_loc n)) specs)) (\<lambda>r.
      bind (sortBy (getSorter specifierSortKey) specs) (\<lambda>sorted.
      bind (rewriteFrom source (map_option spec_loc (nthOpt specs 0))
              (map spec_loc specs) 0 (map spec_loc sorted) '''') (\<lambda>text.
      Inr (r, text)))))"

text \<open>\<open>declarations.map(fix)\<close>, left to right; the first exception ends it.\<close>

fun mapResult :: "('a \<Rightarrow> error + 'b) \<Rightarrow> 'a list \<Rightarrow> error + 'b list" where
  "mapResult f [] = Inr []"
| "mapResult f (x # xs) = bind (f x) (\<lambda>y. bind (mapResult f xs) (\<lambda>ys. Inr (y # ys)))"

text \<open>The sort function the declaration fix gives to \<open>getSorter\<close>.\<close>

definition declarationSortKey :: "(string \<Rightarrow> bool) \<Rightarrow> string \<Rightarrow> import_decl \<Rightarrow> error + sort_name" where
  "declarationSortKey resolves declarationSort node =
     (if declarationSort = ''import'' then
        (case getImportDeclarationSortName node of
           None \<Rightarrow> Inl TypeError
         | Some n \<Rightarrow>
             Inr (Str (numberToString (getImportDeclarationSortIdx resolves node) @ toLowerCase n)))
      else if declarationSort = ''source'' then
        Inr (Str (numberToString (getImportDeclarationSortIdx resolves node) @
                  toLowerCase (source_value node)))
      else Inl UnexpectedSortStrategy)"

definition sortDeclarations :: "(string \<Rightarrow> bool) \<Rightarrow> string \<Rightarrow> import_decl list \<Rightarrow> error + import_decl list" where
  "sortDeclarations resolves declarationSort imports =
     sortBy (getSorter (declarationSortKey resolves declarationSort)) imports"

text \<open>
  The reduce that emits the sorted declarations, one per line, with an empty line where
  the group changes; \<open>prevGroup\<close> is the variable of the enclosing function.
\<close>

fun rewriteImports ::
  "(string \<Rightarrow> bool) \<Rightarrow> string \<Rightarrow> import_decl list \<Rightarrow> nat option \<Rightarrow> nat \<Rightarrow> import_decl list \<Rightarrow> string \<Rightarrow> error + string" where
  "rewriteImports resolves source imports prevGroup idx [] textBefore = Inr textBefore"
| "rewriteImports resolves source imports prevGroup idx (newImport # rest) textBefore =
     (let currentGroup = getImportDeclarationSortIdx resolves newImport;
          groupSeparator = (if prevGroup \<noteq> None \<and> prevGroup \<noteq> Some currentGroup
                            then [CHR 0x0A] else '''')
      in
      bind (if Some newImport \<noteq> nthOpt imports 0 then getCommentedText source (decl_loc newImport)
            else Inr (getText source (decl_loc newImport))) (\<lambda>text.
      (let textAfter = (if idx + 1 < length imports then [CHR 0x0A] else '''') in
       rewriteImports resolves source imports (Some currentGroup) (idx + 1) rest
         (textBefore @ groupSeparator @ text @ textAfter))))"

definition fixDeclarations :: "(string \<Rightarrow> bool) \<Rightarrow> string \<Rightarrow> string \<Rightarrow> import_decl list \<Rightarrow> error + text_edit" where
  "fixDeclarations resolves declarationSort source imports =
     bind (getSpanningRange (map (\<lambda>n. node_range (decl_loc n)) imports)) (\<lambda>r.
     bind (sortDeclarations resolves declarationSort imports) (\<lambda>sorted.
     bind (rewriteImports resolves source imports None 0 sorted '''') (\<lambda>text.
     Inr (r, text))))"

text \<open>The \<open>fix\<close> function of the consolidated report.\<close>

definition importsFix ::
  "(string \<Rightarrow> bool) \<Rightarrow> string \<Rightarrow> string \<Rightarrow> import_decl list \<Rightarrow> import_decl list \<Rightarrow> error + text_edit list" where
  "importsFix resolves declarationSort source imports unsortedSpecifiers =
     (if unsortedSpecifiers \<noteq> [] then mapResult (fixSpecifiers source) unsortedSpecifiers
      else bind (fixDeclarations resolves declarationSort source imports) (\<lambda>e. Inr [e]))"

text \<open>The handler \<open>Program\<close> of the rule, with the options of \<open>create\<close>.\<close>

definition importsOf :: "statement list \<Rightarrow> import_decl list \<times> bool \<times> bool" where
  "importsOf body = foldl collectImport ([], False, True) body"

definition Program ::
  "(string \<Rightarrow> bool) \<Rightarrow> options \<Rightarrow> string \<Rightarrow> statement list \<Rightarrow> error + import_node report list" where
  "Program resolves opts source body =
     (let declarationSort = (case opt_declarationSort opts of None \<Rightarrow> ''source'' | Some v \<Rightarrow> v);
          fixOn = (case opt_fix opts of None \<Rightarrow> False | Some v \<Rightarrow> v)
      in
      if length body < 2 then Inr []
      else
        (case importsOf body of (imports, nonImportFound, fixable) \<Rightarrow>
           if length imports < 2 then Inr []
           else
             bind (reducePairs (compareImports resolves declarationSort fixable) imports
                     \<lparr>reports = [], lastUnsortedDeclaration = None,
                      declarationsWithUnsortedSpecifiers = []\<rparr>) (\<lambda>st.
               (case lastUnsortedDeclaration st of
                  None \<Rightarrow> Inr (reports st)
                | Some d \<Rightarrow>
                    if fixOn \<and> fixable then
                      Inr (reports st @
                        [\<lparr>report_node = DeclNode d,
                          message = ''Expected imports to be sorted.'',
                          data = [],
                          fix_result = Some (importsFix resolves declarationSort source imports
                                               (declarationsWithUnsortedSpecifiers st))\<rparr>])
                    else Inr (reports st)))))"

section \<open>sort-pattern-keys.js and sort-object-keys.js\<close>

text \<open>
  The expressions \<open>getExpressionSortName\<close> tells apart. A literal carries
  \<open>String(node.value)\<close>; a template literal carries the raw text of its quasis and its
  expressions; every other expression is \<open>OtherExpression\<close>.
\<close>

datatype expression =
    Identifier string
  | Literal string
  | TemplateLiteral "string list" "expression list"
  | OtherExpression

text \<open>
  The reduce over the quasis, given the sort names of the expressions: the expression at
  the index of a quasi may be missing, and then contributes the empty string.
\<close>

fun templateText :: "string list \<Rightarrow> string list \<Rightarrow> nat \<Rightarrow> string \<Rightarrow> string" where
  "templateText [] names idx text = text"
| "templateText (quasi # quasis) names idx text =
     templateText quasis names (idx + 1)
       (text @ quasi @ (case nthOpt names idx of None \<Rightarrow> '''' | Some n \<Rightarrow> n))"

fun expressionSortName :: "expression \<Rightarrow> string" where
  "expressionSortName (Identifier name) = name"
| "expressionSortName (Literal v) = v"
| "expressionSortName (TemplateLiteral quasis expressions) =
     templateText quasis (map expressionSortName expressions) 0 ''''"
| "expressionSortName OtherExpression = ''''"

definition getExpressionSortName :: "expression option \<Rightarrow> string" where
  "getExpressionSortName node = (case node of None \<Rightarrow> '''' | Some e \<Rightarrow> expressionSortName e)"

datatype property_type =
    Property | ObjectMethod
  | SpreadProperty | ExperimentalSpreadProperty | SpreadElement
  | RestProperty | ExperimentalRestProperty | RestElement

text \<open>An entry of an object literal or pattern; a rest or spread entry has no \<open>key\<close>.\<close>

record property =
  prop_type :: property_type
  key :: "expression option"
  prop_loc :: loc

datatype key_node = PropNode property | ObjectNode

record key_options =
  key_fix :: "bool option"

definition isRestElement :: "property \<Rightarrow> bool" where
  "isRestElement n =
     (prop_type n = RestProperty \<or> prop_type n = ExperimentalRestProperty \<or> prop_type n = RestElement)"

text \<open>
  The guard \<open>node.properties < 2\<close> compares an array with a number. The array becomes the
  string of its elements joined by commas, each element (a node object) being
  \<open>[object Object]\<close>; the string becomes a number: \<open>0\<close> when empty, its value when it is
  a run of decimal digits, and \<open>NaN\<close> (here \<open>None\<close>) for every string that holds a
  bracket or a letter; a comparison with \<open>NaN\<close> is false.
\<close>

fun joinWith :: "string \<Rightarrow> string list \<Rightarrow> string" where
  "joinWith sep [] = ''''"
| "joinWith sep [x] = x"
| "joinWith sep (x # y # ys) = x @ sep @ joinWith sep (y # ys)"

definition arrayToString :: "'a list \<Rightarrow> string" where
  "arrayToString xs = joinWith '','' (map (\<lambda>_. ''[object Object]'') xs)"

definition isDigit :: "char \<Rightarrow> bool" where
  "isDigit c = (CHR ''0'' \<le> c \<and> c \<le> CHR ''9'')"

definition stringToNumber :: "string \<Rightarrow> nat option" where
  "stringToNumber s =
     (if s = '''' then Some 0
      else if list_all isDigit s then Some (foldl (\<lambda>n c. 10 * n + (of_char c - 48)) 0 s)
      else None)"

definition arrayLessThan :: "'a list \<Rightarrow> nat \<Rightarrow> bool" where
  "arrayLessThan xs n = (case stringToNumber (arrayToString xs) of None \<Rightarrow> False | Some v \<Rightarrow> v < n)"

text \<open>
  The callback of \<open>node.properties.reduce\<close> in \<open>ObjectPattern\<close>; its state is the flag
  \<open>isSorted\<close> and the reports made so far.
\<close>

definition comparePatternProps ::
  "property \<Rightarrow> property \<Rightarrow> bool \<times> key_node report list \<Rightarrow> error + bool \<times> key_node report list" where
  "comparePatternProps prevProp curProp s =
     (case s of (isSorted, reps) \<Rightarrow>
        if isRestElement curProp then Inr (isSorted, reps)
        else
          (let curName = getExpressionSortName (key curProp);
               prevName = getExpressionSortName (key prevProp)
           in
           if isRestElement prevProp then
             Inr (False, reps @
               [\<lparr>report_node = PropNode prevProp,
                 message = ''Expected rest element to be the last property.'',
                 data = [],
                 fix_result = None\<rparr>])
           else if toLowerCase curName < toLowerCase prevName then
             Inr (False, reps @
               [\<lparr>report_node = PropNode curProp,
                 message = ''Expected '' @ [CHR 0x27] @ ''{{a}}'' @ [CHR 0x27] @
                   '' to be before '' @ [CHR 0x27] @ ''{{b}}'' @ [CHR 0x27],
                 data = [(''a'', Some curName), (''b'', Some prevName)],
                 fix_result = None\<rparr>])
           else Inr (isSorted, reps)))"

definition patternSortKey :: "property \<Rightarrow> error + sort_name" where
  "patternSortKey prop =
     Inr (if isRestElement prop then Infinity
          else Str (toLowerCase (getExpressionSortName (key prop))))"

definition objectSortKey :: "property \<Rightarrow> error + sort_name" where
  "objectSortKey prop = Inr (Str (toLowerCase (getExpressionSortName (key prop))))"

text \<open>
  The body of both \<open>fix\<close> functions: replace the range spanned by \<open>props\<close> with the text of
  the sorted properties; \<open>first\<close> is the property whose leading comments are left alone.
\<close>

definition fixProperties ::
  "(property \<Rightarrow> error + sort_name) \<Rightarrow> string \<Rightarrow> property option \<Rightarrow> property list \<Rightarrow> error + text_edit list" where
  "fixProperties sortKey source first props =
     bind (getSpanningRange (map (\<lambda>n. node_range (prop_loc n)) props)) (\<lambda>r.
     bind (sortBy (getSorter sortKey) props) (\<lambda>sorted.
     bind (rewriteFrom source (map_option prop_loc first) (map prop_loc props) 0
             (map prop_loc sorted) '''') (\<lambda>text.
     Inr [(r, text)])))"

definition ObjectPattern :: "key_options \<Rightarrow> string \<Rightarrow> property list \<Rightarrow> error + key_node report list" where
  "ObjectPattern opts source props =
     (let fixOn = (case key_fix opts of None \<Rightarrow> False | Some v \<Rightarrow> v) in
      if arrayLessThan props 2 then Inr []
      else
        bind (reducePairs comparePatternProps props (True, [])) (\<lambda>s.
          (case s of (isSorted, reps) \<Rightarrow>
             if \<not> isSorted \<and> fixOn then
               Inr (reps @
                 [\<lparr>report_node = ObjectNode,
                   message = ''Expected object properties to be sorted.'',
                   data = [],
                   fix_result = Some (fixProperties patternSortKey source (nthOpt props 0) props)\<rparr>])
             else Inr reps)))"

text \<open>
  \<open>getDefinedPropSpansOfObjectExpression\<close>: the reduce over the properties with their
  index; the state is the accumulator \<open>propSpans\<close> and the variable \<open>propSpan\<close>.
\<close>

definition isSpread :: "property \<Rightarrow> bool" where
  "isSpread prop = (prop_type prop = SpreadProperty \<or> prop_type prop = ExperimentalSpreadProperty)"

fun propSpansFrom ::
  "nat \<Rightarrow> nat \<Rightarrow> property list \<Rightarrow> property list list \<times> property list \<Rightarrow> property list list" where
  "propSpansFrom n idx [] (propSpans, propSpan) = propSpans"
| "propSpansFrom n idx (prop # rest) (propSpans, propSpan) =
     (let s1 = (if isSpread prop then
                  (if propSpan \<noteq> [] then (propSpans @ [propSpan], []) else (propSpans, propSpan))
                else (propSpans, propSpan @ [prop]));
          s2 = (if snd s1 \<noteq> [] \<and> Suc idx = n then (fst s1 @ [snd s1], snd s1) else s1)
      in propSpansFrom n (Suc idx) rest s2)"

definition getDefinedPropSpansOfObjectExpression :: "property list \<Rightarrow> property list list" where
  "getDefinedPropSpansOfObjectExpression props = propSpansFrom (length props) 0 props ([], [])"

text \<open>
  The callback of \<open>span.reduce\<close> in \<open>ObjectExpression\<close>; its state is the variable
  \<open>lastUnsortedProperty\<close> and the reports made so far.
\<close>

definition compareObjectProps ::
  "property \<Rightarrow> property \<Rightarrow> property option \<times> key_node report list \<Rightarrow> error + property option \<times> key_node report list" where
  "compareObjectProps prevProp curProp s =
     (case s of (lastUnsortedProperty, reps) \<Rightarrow>
        (let curName = getExpressionSortName (key curProp);
             prevName = getExpressionSortName (key prevProp)
         in
         if toLowerCase curName < toLowerCase prevName then
           Inr (Some curProp, reps @
             [\<lparr>report_node = PropNode curProp,
               message = ''Expected '' @ [CHR 0x27] @ ''{{a}}'' @ [CHR 0x27] @
                 '' to be before '' @ [CHR 0x27] @ ''{{b}}'' @ [CHR 0x27] @ ''.'',
               data = [(''a'', Some curName), (''b'', Some prevName)],
               fix_result = None\<rparr>])
         else Inr (lastUnsortedProperty, reps)))"

text \<open>The callback of \<open>forEach\<close>: one span, adding to the reports made so far.\<close>

definition checkSpan ::
  "bool \<Rightarrow> string \<Rightarrow> property option \<Rightarrow> property list \<Rightarrow> key_node report list \<Rightarrow> error + key_node report list" where
  "checkSpan fixOn source first span reps =
     (if length span < 2 then Inr reps
      else
        bind (reducePairs compareObjectProps span (None, reps)) (\<lambda>s.
          (case s of (lastUnsortedProperty, reps') \<Rightarrow>
             (case lastUnsortedProperty of
                None \<Rightarrow> Inr reps'
              | Some p \<Rightarrow>
                  if fixOn then
                    Inr (reps' @
                      [\<lparr>report_node = PropNode p,
                        message = ''Expected object properties to be sorted.'',
                        data = [],
                        fix_result = Some (fixProperties objectSortKey source first span)\<rparr>])
                  else Inr reps'))))"

fun forEachSpan ::
  "bool \<Rightarrow> string \<Rightarrow> property option \<Rightarrow> property list list \<Rightarrow> key_node report list \<Rightarrow> error + key_node report list" where
  "forEachSpan fixOn source first [] reps = Inr reps"
| "forEachSpan fixOn source first (span # spans) reps =
     bind (checkSpan fixOn source first span reps) (forEachSpan fixOn source first spans)"

definition ObjectExpression :: "key_options \<Rightarrow> string \<Rightarrow> property list \<Rightarrow> error + key_node report list" where
  "ObjectExpression opts source props =
     (let fixOn = (case key_fix opts of None \<Rightarrow> False | Some v \<Rightarrow> v) in
      if length props < 2 then Inr []
      else forEachSpan fixOn source (nthOpt props 0)
             (getDefinedPropSpansOfObjectExpression props) [])"

text \<open>Applying one replacement to the source text, as the host does with an accepted fix.\<close>

definition applyEdit :: "string \<Rightarrow> text_edit \<Rightarrow> string" where
  "applyEdit source e = take (fst (fst e)) source @ snd e @ drop (snd (fst e)) source"

section \<open>Definitions used to state the properties\<close>

text \<open>The named (destructured) specifiers of a declaration.\<close>

definition namedSpecifiers :: "import_decl \<Rightarrow> specifier list" where
  "namedSpecifiers node = filter (\<lambda>s. spec_type s = ImportSpecifier) (specifiers node)"

text \<open>\<^verbatim>\<open>import React, { zed } from 'react'\<close>\<close>

definition example_react_zed :: import_decl where
  "example_react_zed =
     \<lparr>source_value = ''react'',
      specifiers =
        [\<lparr>spec_type = ImportDefaultSpecifier, local_name = ''React'', imported_name = '''',
          spec_loc = \<lparr>node_range = (7, 12), commentsBefore = []\<rparr>\<rparr>,
         \<lparr>spec_type = ImportSpecifier, local_name = ''zed'', imported_name = ''zed'',
          spec_loc = \<lparr>node_range = (16, 19), commentsBefore = []\<rparr>\<rparr>],
      decl_loc = \<lparr>node_range = (0, 34), commentsBefore = []\<rparr>\<rparr>"

text \<open>\<^verbatim>\<open>import { Button, AnchorButton } from 'buttons'\<close>\<close>

definition example_buttons :: import_decl where
  "example_buttons =
     \<lparr>source_value = ''buttons'',
      specifiers =
        [\<lparr>spec_type = ImportSpecifier, local_name = ''Button'', imported_name = ''Button'',
          spec_loc = \<lparr>node_range = (9, 15), commentsBefore = []\<rparr>\<rparr>,
         \<lparr>spec_type = ImportSpecifier, local_name = ''AnchorButton'', imported_name = ''AnchorButton'',
          spec_loc = \<lparr>node_range = (17, 29), commentsBefore = []\<rparr>\<rparr>],
      decl_loc = \<lparr>node_range = (0, 46), commentsBefore = []\<rparr>\<rparr>"

text \<open>
  The module \<^verbatim>\<open>import img from './images.png'\<close>, a line break,
  \<^verbatim>\<open>import React from 'react'\<close>.
\<close>

definition example_image :: import_decl where
  "example_image =
     \<lparr>source_value = ''./images.png'',
      specifiers =
        [\<lparr>spec_type = ImportDefaultSpecifier, local_name = ''img'', imported_name = '''',
          spec_loc = \<lparr>node_range = (7, 10), commentsBefore = []\<rparr>\<rparr>],
      decl_loc = \<lparr>node_range = (0, 30), commentsBefore = []\<rparr>\<rparr>"

definition example_react :: import_decl where
  "example_react =
     \<lparr>source_value = ''react'',
      specifiers =
        [\<lparr>spec_type = ImportDefaultSpecifier, local_name = ''React'', imported_name = '''',
          spec_loc = \<lparr>node_range = (38, 43), commentsBefore = []\<rparr>\<rparr>],
      decl_loc = \<lparr>node_range = (31, 56), commentsBefore = []\<rparr>\<rparr>"

definition example_asset_source :: string where
  "example_asset_source =
     ''import img from '' @ [CHR 0x27] @ ''./images.png'' @ [CHR 0x27, CHR 0x0A] @
     ''import React from '' @ [CHR 0x27] @ ''react'' @ [CHR 0x27]"

text \<open>The only property of the pattern \<^verbatim>\<open>const { a } = o\<close>.\<close>

definition example_single_prop :: property where
  "example_single_prop =
     \<lparr>prop_type = Property, key = Some (Identifier ''a''),
      prop_loc = \<lparr>node_range = (8, 9), commentsBefore = []\<rparr>\<rparr>"

text \<open>
  The first adjacent pair of a list of specifiers whose second name is less than the first,
  without regard to case; and all such pairs.
\<close>

fun firstDisorder :: "specifier list \<Rightarrow> (specifier \<times> specifier) option" where
  "firstDisorder (p # c # rest) =
     (if toLowerCase (getImportSpecifierSortName c) < toLowerCase (getImportSpecifierSortName p)
      then Some (p, c) else firstDisorder (c # rest))"
| "firstDisorder [p] = None"
| "firstDisorder [] = None"

fun disorderedPairs :: "specifier list \<Rightarrow> (specifier \<times> specifier) list" where
  "disorderedPairs (p # c # rest) =
     (if toLowerCase (getImportSpecifierSortName c) < toLowerCase (getImportSpecifierSortName p)
      then (p, c) # disorderedPairs (c # rest) else disorderedPairs (c # rest))"
| "disorderedPairs [p] = []"
| "disorderedPairs [] = []"

text \<open>The diagnostic for a specifier \<open>c\<close> that follows a specifier \<open>p\<close> of a greater name.\<close>

definition specifierReport :: "specifier \<Rightarrow> specifier \<Rightarrow> import_node report" where
  "specifierReport p c =
     \<lparr>report_node = SpecNode c,
      message = ''Expected '' @ [CHR 0x27] @ ''{{a}}'' @ [CHR 0x27] @
                '' to be before '' @ [CHR 0x27] @ ''{{b}}'' @ [CHR 0x27],
      data = [(''a'', Some (getImportSpecifierSortName c)),
              (''b'', Some (getImportSpecifierSortName p))],
      fix_result = None\<rparr>"

text \<open>\<^verbatim>\<open>import 'x'\<close>, a line break, \<^verbatim>\<open>import { c, b, a } from './m'\<close>.\<close>

definition example_side_effect :: import_decl where
  "example_side_effect =
     \<lparr>source_value = ''x'', specifiers = [],
      decl_loc = \<lparr>node_range = (0, 10), commentsBefore = []\<rparr>\<rparr>"

definition example_spec_c :: specifier where
  "example_spec_c = \<lparr>spec_type = ImportSpecifier, local_name = ''c'', imported_name = ''c'',
      spec_loc = \<lparr>node_range = (20, 21), commentsBefore = []\<rparr>\<rparr>"

definition example_spec_b :: specifier where
  "example_spec_b = \<lparr>spec_type = ImportSpecifier, local_name = ''b'', imported_name = ''b'',
      spec_loc = \<lparr>node_range = (23, 24), commentsBefore = []\<rparr>\<rparr>"

definition example_spec_a :: specifier where
  "example_spec_a = \<lparr>spec_type = ImportSpecifier, local_name = ''a'', imported_name = ''a'',
      spec_loc = \<lparr>node_range = (26, 27), commentsBefore = []\<rparr>\<rparr>"

definition example_cba :: import_decl where
  "example_cba =
     \<lparr>source_value = ''./m'', specifiers = [example_spec_c, example_spec_b, example_spec_a],
      decl_loc = \<lparr>node_range = (11, 40), commentsBefore = []\<rparr>\<rparr>"

definition example_cba_source :: string where
  "example_cba_source =
     ''import '' @ [CHR 0x27] @ ''x'' @ [CHR 0x27, CHR 0x0A] @
     ''import { c, b, a } from '' @ [CHR 0x27] @ ''./m'' @ [CHR 0x27]"

text \<open>The state in which \<open>Program\<close> starts the scan of the imports.\<close>

definition initial_state :: check_state where
  "initial_state =
     \<lparr>reports = [], lastUnsortedDeclaration = None, declarationsWithUnsortedSpecifiers = []\<rparr>"

text \<open>The import declarations of a module body, in order.\<close>

fun declsOf :: "statement list \<Rightarrow> import_decl list" where
  "declsOf [] = []"
| "declsOf (ImportDeclaration d # rest) = d # declsOf rest"
| "declsOf (OtherStatement l # rest) = declsOf rest"

text \<open>
  The diagnostics that the comparison of two adjacent declarations makes when started in
  the initial state, or the exception it throws.
\<close>

definition declarationReports ::
  "(string \<Rightarrow> bool) \<Rightarrow> string \<Rightarrow> import_decl \<Rightarrow> import_decl \<Rightarrow> error + import_node report list" where
  "declarationReports resolves declarationSort p c =
     bind (checkDeclarationOrder resolves declarationSort p c initial_state) (\<lambda>st. Inr (reports st))"

text \<open>Whether two adjacent declarations of a list are in the same group.\<close>

fun hasSameGroupPair :: "(string \<Rightarrow> bool) \<Rightarrow> import_decl list \<Rightarrow> bool" where
  "hasSameGroupPair resolves (p # c # rest) =
     (getImportDeclarationSortIdx resolves c = getImportDeclarationSortIdx resolves p \<or>
      hasSameGroupPair resolves (c # rest))"
| "hasSameGroupPair resolves [p] = False"
| "hasSameGroupPair resolves [] = False"

text \<open>The specifier diagnostics of a declaration: at most one, for the first disorder.\<close>

definition specifierReports :: "import_decl \<Rightarrow> import_node report list" where
  "specifierReports cur =
     (case firstDisorder (namedSpecifiers cur) of
        None \<Rightarrow> []
      | Some (p, c) \<Rightarrow> [specifierReport p c])"

definition summary :: "check_state \<Rightarrow> import_node report list \<times> import_decl option" where
  "summary st = (reports st, lastUnsortedDeclaration st)"

text \<open>
  The module \<^verbatim>\<open>import b from './b'\<close>, \<^verbatim>\<open>const x = 1\<close>, \<^verbatim>\<open>import a from './a'\<close>, one
  statement per line.
\<close>

definition example_import_b :: import_decl where
  "example_import_b =
     \<lparr>source_value = ''./b'',
      specifiers =
        [\<lparr>spec_type = ImportDefaultSpecifier, local_name = ''b'', imported_name = '''',
          spec_loc = \<lparr>node_range = (7, 8), commentsBefore = []\<rparr>\<rparr>],
      decl_loc = \<lparr>node_range = (0, 19), commentsBefore = []\<rparr>\<rparr>"

definition example_import_a :: import_decl where
  "example_import_a =
     \<lparr>source_value = ''./a'',
      specifiers =
        [\<lparr>spec_type = ImportDefaultSpecifier, local_name = ''a'', imported_name = '''',
          spec_loc = \<lparr>node_range = (39, 40), commentsBefore = []\<rparr>\<rparr>],
      decl_loc = \<lparr>node_range = (32, 51), commentsBefore = []\<rparr>\<rparr>"

definition example_const :: statement where
  "example_const = OtherStatement \<lparr>node_range = (20, 31), commentsBefore = []\<rparr>"

definition example_interleaved_source :: string where
  "example_interleaved_source =
     ''import b from '' @ [CHR 0x27] @ ''./b'' @ [CHR 0x27, CHR 0x0A] @
     ''const x = 1'' @ [CHR 0x0A] @
     ''import a from '' @ [CHR 0x27] @ ''./a'' @ [CHR 0x27]"

definition example_interleaved_body :: "statement list" where
  "example_interleaved_body =
     [ImportDeclaration example_import_b, example_const, ImportDeclaration example_import_a]"

text \<open>The diagnostic of the source mode for \<open>example_import_a\<close> after \<open>example_import_b\<close>.\<close>

definition example_source_report :: "import_node report" where
  "example_source_report =
     \<lparr>report_node = DeclNode example_import_a,
      message = ''Expected imports from '' @ [CHR 0x27] @ ''{{a}}'' @ [CHR 0x27] @
                '' to be before imports from '' @ [CHR 0x27] @ ''{{b}}'' @ [CHR 0x27],
      data = [(''a'', Some ''./a''), (''b'', Some ''./b'')],
      fix_result = None\<rparr>"

text \<open>The module \<^verbatim>\<open>import 'x'\<close>, a line break, \<^verbatim>\<open>import React from 'react'\<close>.\<close>

definition example_react_second :: import_decl where
  "example_react_second =
     \<lparr>source_value = ''react'',
      specifiers =
        [\<lparr>spec_type = ImportDefaultSpecifier, local_name = ''React'', imported_name = '''',
          spec_loc = \<lparr>node_range = (18, 23), commentsBefore = []\<rparr>\<rparr>],
      decl_loc = \<lparr>node_range = (11, 36), commentsBefore = []\<rparr>\<rparr>"

definition example_two_groups_source :: string where
  "example_two_groups_source =
     ''import '' @ [CHR 0x27] @ ''x'' @ [CHR 0x27, CHR 0x0A] @
     ''import React from '' @ [CHR 0x27] @ ''react'' @ [CHR 0x27]"



text \<open>
  The span of a non-empty list of nodes: from the start of the first node itself to the
  end of the last node. The comments of the nodes play no part in it.
\<close>

definition spanOf :: "loc list \<Rightarrow> range" where
  "spanOf nodes = (fst (node_range (hd nodes)), snd (node_range (last nodes)))"

text \<open>
  The module \<^verbatim>\<open>/* c */ import b from './b'\<close>, a line break, \<^verbatim>\<open>import a from './a'\<close>:
  the first declaration has a leading comment.
\<close>

definition example_commented_b :: import_decl where
  "example_commented_b =
     \<lparr>source_value = ''./b'',
      specifiers =
        [\<lparr>spec_type = ImportDefaultSpecifier, local_name = ''b'', imported_name = '''',
          spec_loc = \<lparr>node_range = (15, 16), commentsBefore = []\<rparr>\<rparr>],
      decl_loc = \<lparr>node_range = (8, 27), commentsBefore = [(0, 7)]\<rparr>\<rparr>"

definition example_after_commented :: import_decl where
  "example_after_commented =
     \<lparr>source_value = ''./a'',
      specifiers =
        [\<lparr>spec_type = ImportDefaultSpecifier, local_name = ''a'', imported_name = '''',
          spec_loc = \<lparr>node_range = (35, 36), commentsBefore = []\<rparr>\<rparr>],
      decl_loc = \<lparr>node_range = (28, 47), commentsBefore = []\<rparr>\<rparr>"

definition example_commented_source :: string where
  "example_commented_source =
     ''/* c */ import b from '' @ [CHR 0x27] @ ''./b'' @ [CHR 0x27, CHR 0x0A] @
     ''import a from '' @ [CHR 0x27] @ ''./a'' @ [CHR 0x27]"

definition example_swapped_text :: string where
  "example_swapped_text =
     ''import a from '' @ [CHR 0x27] @ ''./a'' @ [CHR 0x27, CHR 0x0A] @
     ''import b from '' @ [CHR 0x27] @ ''./b'' @ [CHR 0x27]"

text \<open>The name under which a property is compared.\<close>

definition propName :: "property \<Rightarrow> string" where
  "propName p = getExpressionSortName (key p)"

text \<open>
  The two diagnostics of a pattern: a rest element \<open>p\<close> that is followed by a property,
  and a property \<open>c\<close> that follows a property \<open>p\<close> of a greater name.
\<close>

definition restNotLastReport :: "property \<Rightarrow> key_node report" where
  "restNotLastReport p =
     \<lparr>report_node = PropNode p,
      message = ''Expected rest element to be the last property.'',
      data = [],
      fix_result = None\<rparr>"

definition patternOrderReport :: "property \<Rightarrow> property \<Rightarrow> key_node report" where
  "patternOrderReport p c =
     \<lparr>report_node = PropNode c,
      message = ''Expected '' @ [CHR 0x27] @ ''{{a}}'' @ [CHR 0x27] @
                '' to be before '' @ [CHR 0x27] @ ''{{b}}'' @ [CHR 0x27],
      data = [(''a'', Some (propName c)), (''b'', Some (propName p))],
      fix_result = None\<rparr>"

text \<open>The diagnostics of the adjacent pairs of a list of pattern properties, in order.\<close>

fun patternReports :: "property list \<Rightarrow> key_node report list" where
  "patternReports (p # c # rest) =
     (if isRestElement c then []
      else if isRestElement p then [restNotLastReport p]
      else if toLowerCase (propName c) < toLowerCase (propName p) then [patternOrderReport p c]
      else []) @ patternReports (c # rest)"
| "patternReports [p] = []"
| "patternReports [] = []"

text \<open>The pattern \<^verbatim>\<open>const {b, a, ...rest} = o\<close>.\<close>

definition example_prop_b :: property where
  "example_prop_b =
     \<lparr>prop_type = Property, key = Some (Identifier ''b''),
      prop_loc = \<lparr>node_range = (7, 8), commentsBefore = []\<rparr>\<rparr>"

definition example_prop_a :: property where
  "example_prop_a =
     \<lparr>prop_type = Property, key = Some (Identifier ''a''),
      prop_loc = \<lparr>node_range = (10, 11), commentsBefore = []\<rparr>\<rparr>"

definition example_rest :: property where
  "example_rest =
     \<lparr>prop_type = RestElement, key = None,
      prop_loc = \<lparr>node_range = (13, 20), commentsBefore = []\<rparr>\<rparr>"

text \<open>The pattern \<^verbatim>\<open>const {...rest, b} = o\<close>, which an old parser accepts.\<close>

definition example_rest_first :: property where
  "example_rest_first =
     \<lparr>prop_type = RestProperty, key = None,
      prop_loc = \<lparr>node_range = (7, 14), commentsBefore = []\<rparr>\<rparr>"

definition example_prop_after_rest :: property where
  "example_prop_after_rest =
     \<lparr>prop_type = Property, key = Some (Identifier ''b''),
      prop_loc = \<lparr>node_range = (16, 17), commentsBefore = []\<rparr>\<rparr>"

definition example_pattern_source :: string where
  "example_pattern_source = ''const {b, a, ...rest} = o''"

text \<open>
  The maximal runs of properties of an object literal that no spread property interrupts:
  a run starts at a property that is not a spread and takes every property up to the next
  spread or the end.
\<close>

function splitRuns :: "property list \<Rightarrow> property list list" where
  "splitRuns [] = []"
| "splitRuns (p # ps) =
     (if isSpread p then splitRuns ps
      else (p # takeWhile (\<lambda>q. \<not> isSpread q) ps) # splitRuns (dropWhile (\<lambda>q. \<not> isSpread q) ps))"
  by pat_completeness auto

termination
  by (relation "measure length") (auto simp add: less_Suc_eq_le length_dropWhile_le)

text \<open>The diagnostic of an object literal for a property \<open>c\<close> after a property \<open>p\<close> of a greater name.\<close>

definition objectOrderReport :: "property \<Rightarrow> property \<Rightarrow> key_node report" where
  "objectOrderReport p c =
     \<lparr>report_node = PropNode c,
      message = ''Expected '' @ [CHR 0x27] @ ''{{a}}'' @ [CHR 0x27] @
                '' to be before '' @ [CHR 0x27] @ ''{{b}}'' @ [CHR 0x27] @ ''.'',
      data = [(''a'', Some (propName c)), (''b'', Some (propName p))],
      fix_result = None\<rparr>"

text \<open>The diagnostics of the adjacent pairs of one run, and the last property they are about.\<close>

fun spanReports :: "property list \<Rightarrow> key_node report list" where
  "spanReports (p # c # rest) =
     (if toLowerCase (propName c) < toLowerCase (propName p) then [objectOrderReport p c] else []) @
     spanReports (c # rest)"
| "spanReports [p] = []"
| "spanReports [] = []"

fun lastUnsorted :: "property option \<Rightarrow> property list \<Rightarrow> property option" where
  "lastUnsorted l (p # c # rest) =
     lastUnsorted (if toLowerCase (propName c) < toLowerCase (propName p) then Some c else l)
       (c # rest)"
| "lastUnsorted l [p] = l"
| "lastUnsorted l [] = l"

text \<open>The report that carries the fix of one run: none unless the run has a diagnostic.\<close>

definition spanFixReports ::
  "bool \<Rightarrow> string \<Rightarrow> property option \<Rightarrow> property list \<Rightarrow> key_node report list" where
  "spanFixReports fixOn source first span =
     (case lastUnsorted None span of
        None \<Rightarrow> []
      | Some p \<Rightarrow>
          if fixOn then
            [\<lparr>report_node = PropNode p,
              message = ''Expected object properties to be sorted.'',
              data = [],
              fix_result = Some (fixProperties objectSortKey source first span)\<rparr>]
          else [])"

text \<open>
  The object literal \<^verbatim>\<open>const o = {...x, b, a, ...y, d, c}\<close> as an old parser gives it:
  the two spreads have the type \<open>SpreadProperty\<close>.
\<close>

definition example_spread_x :: property where
  "example_spread_x =
     \<lparr>prop_type = SpreadProperty, key = None,
      prop_loc = \<lparr>node_range = (11, 15), commentsBefore = []\<rparr>\<rparr>"

definition example_obj_b :: property where
  "example_obj_b =
     \<lparr>prop_type = Property, key = Some (Identifier ''b''),
      prop_loc = \<lparr>node_range = (17, 18), commentsBefore = []\<rparr>\<rparr>"

definition example_obj_a :: property where
  "example_obj_a =
     \<lparr>prop_type = Property, key = Some (Identifier ''a''),
      prop_loc = \<lparr>node_range = (20, 21), commentsBefore = []\<rparr>\<rparr>"

definition example_spread_y :: property where
  "example_spread_y =
     \<lparr>prop_type = SpreadProperty, key = None,
      prop_loc = \<lparr>node_range = (23, 27), commentsBefore = []\<rparr>\<rparr>"

definition example_obj_d :: property where
  "example_obj_d =
     \<lparr>prop_type = Property, key = Some (Identifier ''d''),
      prop_loc = \<lparr>node_range = (29, 30), commentsBefore = []\<rparr>\<rparr>"

definition example_obj_c :: property where
  "example_obj_c =
     \<lparr>prop_type = Property, key = Some (Identifier ''c''),
      prop_loc = \<lparr>node_range = (32, 33), commentsBefore = []\<rparr>\<rparr>"

definition example_object :: "property list" where
  "example_object =
     [example_spread_x, example_obj_b, example_obj_a, example_spread_y, example_obj_d,
      example_obj_c]"

definition example_object_source :: string where
  "example_object_source = ''const o = {...x, b, a, ...y, d, c}''"

text \<open>
  The same literal \<^verbatim>\<open>const o = {...x, b, a, ...y, d, c}\<close> as a parser that follows ESTree
  gives it: the two spreads have the type \<open>SpreadElement\<close>.
\<close>

definition example_spread_element_x :: property where
  "example_spread_element_x =
     \<lparr>prop_type = SpreadElement, key = None,
      prop_loc = \<lparr>node_range = (11, 15), commentsBefore = []\<rparr>\<rparr>"

definition example_spread_element_y :: property where
  "example_spread_element_y =
     \<lparr>prop_type = SpreadElement, key = None,
      prop_loc = \<lparr>node_range = (23, 27), commentsBefore = []\<rparr>\<rparr>"

definition example_object_estree :: "property list" where
  "example_object_estree =
     [example_spread_element_x, example_obj_b, example_obj_a, example_spread_element_y,
      example_obj_d, example_obj_c]"

text \<open>The diagnostic for a declaration \<open>c\<close> of a lower group than the one before it, \<open>p\<close>.\<close>

definition groupReport :: "(string \<Rightarrow> bool) \<Rightarrow> import_decl \<Rightarrow> import_decl \<Rightarrow> import_node report" where
  "groupReport resolves p c =
     \<lparr>report_node = DeclNode c,
      message = ''Expected {{a}} imports to be before {{b}} imports.'',
      data = [(''a'', nthOpt DECL_TYPE_NAMES (getImportDeclarationSortIdx resolves c)),
              (''b'', nthOpt DECL_TYPE_NAMES (getImportDeclarationSortIdx resolves p))],
      fix_result = None\<rparr>"

text \<open>
  The group diagnostics and the specifier diagnostics of the adjacent pairs of a list of
  declarations, in the order of the scan.
\<close>

fun groupAndSpecifierReports :: "(string \<Rightarrow> bool) \<Rightarrow> import_decl list \<Rightarrow> import_node report list" where
  "groupAndSpecifierReports resolves (p # c # rest) =
     (if getImportDeclarationSortIdx resolves c < getImportDeclarationSortIdx resolves p
      then [groupReport resolves p c] else []) @
     specifierReports c @ groupAndSpecifierReports resolves (c # rest)"
| "groupAndSpecifierReports resolves [p] = []"
| "groupAndSpecifierReports resolves [] = []"

text \<open>
  A host that calls the \<open>fix\<close> function of a report inside \<open>context.report\<close>, as ESLint
  does when it builds the message: an exception of the \<open>fix\<close> function then leaves the
  handler, and ends the traversal as an exception of the handler itself does.
\<close>

fun runFixes :: "'n report list \<Rightarrow> error + 'n report list" where
  "runFixes [] = Inr []"
| "runFixes (x # xs) =
     (case fix_result x of
        Some (Inl e) \<Rightarrow> Inl e
      | _ \<Rightarrow> bind (runFixes xs) (\<lambda>ys. Inr (x # ys)))"

definition withFixesRun :: "error + 'n report list \<Rightarrow> error + 'n report list" where
  "withFixesRun result = bind result runFixes"

text \<open>The module \<^verbatim>\<open>import React from 'react'\<close>, a line break, \<^verbatim>\<open>import 'x'\<close>.\<close>

definition example_react_first :: import_decl where
  "example_react_first =
     \<lparr>source_value = ''react'',
      specifiers =
        [\<lparr>spec_type = ImportDefaultSpecifier, local_name = ''React'', imported_name = '''',
          spec_loc = \<lparr>node_range = (7, 12), commentsBefore = []\<rparr>\<rparr>],
      decl_loc = \<lparr>node_range = (0, 25), commentsBefore = []\<rparr>\<rparr>"

definition example_side_effect_second :: import_decl where
  "example_side_effect_second =
     \<lparr>source_value = ''x'', specifiers = [],
      decl_loc = \<lparr>node_range = (26, 36), commentsBefore = []\<rparr>\<rparr>"

definition example_groups_swapped_source :: string where
  "example_groups_swapped_source =
     ''import React from '' @ [CHR 0x27] @ ''react'' @ [CHR 0x27, CHR 0x0A] @
     ''import '' @ [CHR 0x27] @ ''x'' @ [CHR 0x27]"















section \<open>Verified properties\<close>

subsection \<open>C1: the sort name of an import declaration\<close>

text \<open>
  The reduce over the specifiers, started from a name, returns a name that is the start or
  the name of a named specifier, and that is least without regard to case.
\<close>

lemma minSortName_fold_Some:
  "\<exists>k. foldl minSortName (Some a) xs = Some k
     \<and> (k = a \<or> k \<in> getImportSpecifierSortName ` {s \<in> set xs. spec_type s = ImportSpecifier})
     \<and> toLowerCase k \<le> toLowerCase a
     \<and> (\<forall>t \<in> set xs. spec_type t = ImportSpecifier \<longrightarrow>
            toLowerCase k \<le> toLowerCase (getImportSpecifierSortName t))"
proof (induction xs arbitrary: a)
  case Nil
  then show ?case by simp
next
  case (Cons x xs)
  show ?case
  proof (cases "spec_type x = ImportSpecifier \<and> toLowerCase (getImportSpecifierSortName x) < toLowerCase a")
    case True
    then have step: "minSortName (Some a) x = Some (getImportSpecifierSortName x)"
      by (simp add: minSortName_def)
    from Cons.IH [of "getImportSpecifierSortName x"] obtain k where
      k: "foldl minSortName (Some (getImportSpecifierSortName x)) xs = Some k"
         "k = getImportSpecifierSortName x \<or> k \<in> getImportSpecifierSortName ` {s \<in> set xs. spec_type s = ImportSpecifier}"
         "toLowerCase k \<le> toLowerCase (getImportSpecifierSortName x)"
         "\<forall>t \<in> set xs. spec_type t = ImportSpecifier \<longrightarrow> toLowerCase k \<le> toLowerCase (getImportSpecifierSortName t)"
      by blast
    from k True step show ?thesis by auto
  next
    case False
    then have step: "minSortName (Some a) x = Some a"
      by (auto simp add: minSortName_def)
    from Cons.IH [of a] obtain k where
      k: "foldl minSortName (Some a) xs = Some k"
         "k = a \<or> k \<in> getImportSpecifierSortName ` {s \<in> set xs. spec_type s = ImportSpecifier}"
         "toLowerCase k \<le> toLowerCase a"
         "\<forall>t \<in> set xs. spec_type t = ImportSpecifier \<longrightarrow> toLowerCase k \<le> toLowerCase (getImportSpecifierSortName t)"
      by blast
    from k False step show ?thesis by auto
  qed
qed

text \<open>
  C1 (as amended). A declaration without specifiers is named by its source. A declaration
  whose first specifier is a default or namespace specifier is named by the local name of
  that specifier, whether or not named specifiers follow. Only a declaration whose first
  specifier is a named one is named by the least imported name of its named specifiers,
  compared without regard to case.
\<close>

theorem import_sort_name_amended:
  "(specifiers node = [] \<longrightarrow> getImportDeclarationSortName node = Some (source_value node)) \<and>
   (\<forall>s0 rest. specifiers node = s0 # rest \<and> spec_type s0 \<noteq> ImportSpecifier \<longrightarrow>
      getImportDeclarationSortName node = Some (local_name s0)) \<and>
   (\<forall>s0 rest. specifiers node = s0 # rest \<and> spec_type s0 = ImportSpecifier \<longrightarrow>
      (\<exists>s \<in> set (namedSpecifiers node).
         getImportDeclarationSortName node = Some (imported_name s) \<and>
         (\<forall>t \<in> set (namedSpecifiers node).
            toLowerCase (imported_name s) \<le> toLowerCase (imported_name t))))"
proof (intro conjI allI impI)
  assume "specifiers node = []"
  then show "getImportDeclarationSortName node = Some (source_value node)"
    by (simp add: getImportDeclarationSortName_def isImportSideEffect_def)
next
  fix s0 rest
  assume a: "specifiers node = s0 # rest \<and> spec_type s0 \<noteq> ImportSpecifier"
  then show "getImportDeclarationSortName node = Some (local_name s0)"
    by (cases "spec_type s0")
       (simp_all add: getImportDeclarationSortName_def isImportSideEffect_def
          getImportSpecifierSortName_def)
next
  fix s0 rest
  assume a: "specifiers node = s0 # rest \<and> spec_type s0 = ImportSpecifier"
  then have key: "getImportDeclarationSortName node =
      foldl minSortName (Some (getImportSpecifierSortName s0)) rest"
    by (simp add: getImportDeclarationSortName_def isImportSideEffect_def minSortName_def)
  from minSortName_fold_Some [of "getImportSpecifierSortName s0" rest] obtain k where
    k: "foldl minSortName (Some (getImportSpecifierSortName s0)) rest = Some k"
       "k = getImportSpecifierSortName s0 \<or> k \<in> getImportSpecifierSortName ` {s \<in> set rest. spec_type s = ImportSpecifier}"
       "toLowerCase k \<le> toLowerCase (getImportSpecifierSortName s0)"
       "\<forall>t \<in> set rest. spec_type t = ImportSpecifier \<longrightarrow> toLowerCase k \<le> toLowerCase (getImportSpecifierSortName t)"
    by blast
  have named: "set (namedSpecifiers node) = {s \<in> set (s0 # rest). spec_type s = ImportSpecifier}"
    using a by (auto simp add: namedSpecifiers_def)
  have nm: "\<And>t. spec_type t = ImportSpecifier \<Longrightarrow> getImportSpecifierSortName t = imported_name t"
    by (simp add: getImportSpecifierSortName_def)
  from k(2) obtain s where s: "s \<in> set (namedSpecifiers node)" "k = imported_name s"
    using a named nm by auto
  have "\<forall>t \<in> set (namedSpecifiers node). toLowerCase (imported_name s) \<le> toLowerCase (imported_name t)"
    using k(3,4) s(2) named nm by auto
  with s key k(1) show "\<exists>s \<in> set (namedSpecifiers node).
         getImportDeclarationSortName node = Some (imported_name s) \<and>
         (\<forall>t \<in> set (namedSpecifiers node).
            toLowerCase (imported_name s) \<le> toLowerCase (imported_name t))"
    by auto
qed

text \<open>
  C1 as stated fails: \<^verbatim>\<open>import React, { zed } from 'react'\<close> has a named specifier,
  whose least name is \<open>zed\<close>, and its sort name is \<open>React\<close>.
\<close>

theorem import_sort_name_counterexample:
  "namedSpecifiers example_react_zed \<noteq> [] \<and>
   foldl minSortName None (namedSpecifiers example_react_zed) = Some ''zed'' \<and>
   getImportDeclarationSortName example_react_zed = Some ''React''"
  by code_simp

text \<open>The amended C1 at the two declarations of the examples.\<close>

theorem import_sort_name_amended_witness:
  "getImportDeclarationSortName example_react_zed = Some ''React'' \<and>
   getImportDeclarationSortName example_buttons = Some ''AnchorButton''"
proof -
  have 1: "getImportDeclarationSortName example_react_zed = Some ''React''"
    using import_sort_name_amended [of example_react_zed]
    by (simp add: example_react_zed_def)
  obtain s where s: "s \<in> set (namedSpecifiers example_buttons)"
      "getImportDeclarationSortName example_buttons = Some (imported_name s)"
      "\<forall>t \<in> set (namedSpecifiers example_buttons).
            toLowerCase (imported_name s) \<le> toLowerCase (imported_name t)"
    using import_sort_name_amended [of example_buttons]
    by (auto simp add: example_buttons_def)
  have lt: "toLowerCase ''AnchorButton'' < toLowerCase ''Button''" by code_simp
  from s(1,3) lt have "imported_name s = ''AnchorButton''"
    by (auto simp add: example_buttons_def namedSpecifiers_def)
  with s(2) 1 show ?thesis by simp
qed

subsection \<open>C3: the labels of the groups in the group diagnostic\<close>

text \<open>
  C3 fails on the code. The label of a group is looked up in \<open>DECL_TYPE_NAMES\<close> at the
  ordinal of the group; the ordinals are 0, 1, 3 and 4 and the table has the indices 0 to 3.
  So the static asset group has no label, and the internal group has the label of the
  static assets. For a static asset import followed by an import of an installed package
  the diagnostic names the external packages and \<open>undefined\<close>.
\<close>

theorem group_label_missing:
  "nthOpt DECL_TYPE_NAMES (DECL_PRIORITIES StaticAsset) = None \<and>
   nthOpt DECL_TYPE_NAMES (DECL_PRIORITIES Internal) = Some ''static asset'' \<and>
   Program (\<lambda>_. True) \<lparr>opt_declarationSort = None, opt_fix = None\<rparr> example_asset_source
     [ImportDeclaration example_image, ImportDeclaration example_react] =
   Inr [\<lparr>report_node = DeclNode example_react,
         message = ''Expected {{a}} imports to be before {{b}} imports.'',
         data = [(''a'', Some ''external package''), (''b'', None)],
         fix_result = None\<rparr>]"
  by code_simp

subsection \<open>Results and exceptions\<close>

lemma bind_Inr [simp]: "bind (Inr x) f = f x"
  by (simp add: bind_def)

lemma bind_Inl [simp]: "bind (Inl e) f = Inl e"
  by (simp add: bind_def)

lemma bind_eq_Inr: "bind m f = Inr y \<longleftrightarrow> (\<exists>x. m = Inr x \<and> f x = Inr y)"
  by (cases m) simp_all

lemma bind_eq_Inl: "bind m f = Inl e \<longleftrightarrow> m = Inl e \<or> (\<exists>x. m = Inr x \<and> f x = Inl e)"
  by (cases m) simp_all

subsection \<open>C10: patterns with fewer than two properties\<close>

text \<open>An array of at least one node is not less than 2: its string starts with a bracket.\<close>

lemma joinWith_object_nonempty:
  "joinWith sep (''[object Object]'' # ys) = CHR ''['' # tl (joinWith sep (''[object Object]'' # ys))"
  by (cases ys) simp_all

lemma arrayLessThan_2_iff: "arrayLessThan xs 2 \<longleftrightarrow> xs = []"
proof (cases xs)
  case Nil
  then show ?thesis
    by (simp add: arrayLessThan_def arrayToString_def stringToNumber_def)
next
  case (Cons x ys)
  have "arrayToString (x # ys) = CHR ''['' # tl (arrayToString (x # ys))"
    unfolding arrayToString_def list.map by (rule joinWith_object_nonempty)
  then obtain t where t: "arrayToString (x # ys) = CHR ''['' # t" by blast
  have "stringToNumber (CHR ''['' # t) = None"
    by (simp add: stringToNumber_def isDigit_def)
  with t Cons show ?thesis
    by (simp add: arrayLessThan_def)
qed

text \<open>
  C10. On a pattern with fewer than two properties \<open>ObjectPattern\<close> returns without a
  report, a fix or an exception. The guard holds for the empty list only, which so never
  reaches the reduce, which throws on it; a list of one property passes the guard, and the
  reduce returns on it without calling the callback.
\<close>

theorem pattern_short_list:
  "(length props < 2 \<longrightarrow> ObjectPattern opts source props = Inr []) \<and>
   (arrayLessThan props 2 \<longleftrightarrow> props = []) \<and>
   reducePairs comparePatternProps [] (True, []) = Inl TypeError \<and>
   (\<forall>p. reducePairs comparePatternProps [p] (True, []) = Inr (True, []))"
proof (intro conjI impI allI)
  assume short: "length props < 2"
  show "ObjectPattern opts source props = Inr []"
  proof (cases props)
    case Nil
    then show ?thesis by (simp add: ObjectPattern_def arrayLessThan_2_iff)
  next
    case (Cons p ps)
    with short have "ps = []" by simp
    with Cons show ?thesis by (simp add: ObjectPattern_def arrayLessThan_2_iff)
  qed
qed (simp_all add: arrayLessThan_2_iff)

text \<open>C10 at the patterns \<^verbatim>\<open>const { a } = o\<close> and \<^verbatim>\<open>const {} = o\<close>.\<close>

theorem pattern_short_list_witness:
  "length [example_single_prop] < 2 \<and>
   ObjectPattern \<lparr>key_fix = Some True\<rparr> ''const { a } = o'' [example_single_prop] = Inr [] \<and>
   \<not> arrayLessThan [example_single_prop] 2 \<and>
   ObjectPattern \<lparr>key_fix = Some True\<rparr> ''const {} = o'' [] = Inr [] \<and>
   arrayLessThan ([] :: property list) 2"
  using pattern_short_list [of "[example_single_prop]" "\<lparr>key_fix = Some True\<rparr>" "''const { a } = o''"]
    pattern_short_list [of "[]" "\<lparr>key_fix = Some True\<rparr>" "''const {} = o''"]
  by simp

subsection \<open>C7: specifier diagnostics of one declaration\<close>

text \<open>Once the flag \<open>isSorted\<close> is cleared the reduce over the specifiers changes nothing.\<close>

lemma compareSpecifiers_unsorted:
  "xs \<noteq> [] \<Longrightarrow> reducePairs (compareSpecifiers fixable cur) xs (False, st) = Inr (False, st)"
  by (induction xs rule: induct_list012) (simp_all add: compareSpecifiers_def)

lemma compareSpecifiers_first:
  "xs \<noteq> [] \<Longrightarrow>
   reducePairs (compareSpecifiers fixable cur) xs (True, st) =
   Inr (case firstDisorder xs of
          None \<Rightarrow> (True, st)
        | Some (p, c) \<Rightarrow>
            (False,
             st\<lparr>lastUnsortedDeclaration := Some cur,
                declarationsWithUnsortedSpecifiers :=
                  (if fixable then declarationsWithUnsortedSpecifiers st @ [cur]
                   else declarationsWithUnsortedSpecifiers st),
                reports := reports st @ [specifierReport p c]\<rparr>))"
proof (induction xs rule: induct_list012)
  case 1
  then show ?case by simp
next
  case (2 x)
  then show ?case by simp
next
  case (3 x y zs)
  show ?case
  proof (cases "toLowerCase (getImportSpecifierSortName y) < toLowerCase (getImportSpecifierSortName x)")
    case True
    then have step: "compareSpecifiers fixable cur x y (True, st) =
      Inr (False,
           st\<lparr>lastUnsortedDeclaration := Some cur,
              declarationsWithUnsortedSpecifiers :=
                (if fixable then declarationsWithUnsortedSpecifiers st @ [cur]
                 else declarationsWithUnsortedSpecifiers st),
              reports := reports st @ [specifierReport x y]\<rparr>)"
      by (simp add: compareSpecifiers_def specifierReport_def)
    show ?thesis
      using True by (simp add: step compareSpecifiers_unsorted)
  next
    case False
    then have step: "compareSpecifiers fixable cur x y (True, st) = Inr (True, st)"
      by (simp add: compareSpecifiers_def)
    show ?thesis
      using False 3 by (simp add: step)
  qed
qed

text \<open>What the check of the specifiers of one declaration returns.\<close>

lemma checkSpecifierOrder_result:
  "checkSpecifierOrder fixable cur st =
   Inr (case firstDisorder (namedSpecifiers cur) of
          None \<Rightarrow> st
        | Some (p, c) \<Rightarrow>
            st\<lparr>lastUnsortedDeclaration := Some cur,
               declarationsWithUnsortedSpecifiers :=
                 (if fixable then declarationsWithUnsortedSpecifiers st @ [cur]
                  else declarationsWithUnsortedSpecifiers st),
               reports := reports st @ [specifierReport p c]\<rparr>)"
proof (cases "length (namedSpecifiers cur) \<ge> 2")
  case True
  then have ne: "namedSpecifiers cur \<noteq> []" "specifiers cur \<noteq> []"
    by (auto simp add: namedSpecifiers_def)
  show ?thesis
    using True ne compareSpecifiers_first [OF ne(1), of fixable cur st]
    by (simp add: checkSpecifierOrder_def isImportSideEffect_def namedSpecifiers_def [symmetric]
          split: option.split)
next
  case False
  then have "firstDisorder (namedSpecifiers cur) = None"
    by (cases "namedSpecifiers cur" rule: firstDisorder.cases) simp_all
  with False show ?thesis
    by (simp add: checkSpecifierOrder_def namedSpecifiers_def [symmetric])
qed

text \<open>
  C7 (as amended). For a declaration that the scan of the imports visits as the current
  one, the check of its named specifiers makes at most one diagnostic: none when no
  adjacent pair of named specifiers is out of order, and otherwise exactly one, for the
  first such pair. It then also records the declaration as the last unsorted one and,
  when fixing is still possible, among the declarations whose specifiers a fix reorders.
\<close>

theorem specifier_check_first_disorder:
  "checkSpecifierOrder fixable cur st =
   Inr (case firstDisorder (namedSpecifiers cur) of
          None \<Rightarrow> st
        | Some (p, c) \<Rightarrow>
            st\<lparr>lastUnsortedDeclaration := Some cur,
               declarationsWithUnsortedSpecifiers :=
                 (if fixable then declarationsWithUnsortedSpecifiers st @ [cur]
                  else declarationsWithUnsortedSpecifiers st),
               reports := reports st @ [specifierReport p c]\<rparr>)"
  by (rule checkSpecifierOrder_result)

text \<open>
  C7 as stated fails: in \<^verbatim>\<open>import { c, b, a } from './m'\<close> two adjacent pairs of
  specifiers are out of order, and the rule reports one of them.
\<close>

theorem specifier_check_counterexample:
  "length (disorderedPairs (namedSpecifiers example_cba)) = 2 \<and>
   Program (\<lambda>_. False) \<lparr>opt_declarationSort = None, opt_fix = None\<rparr> example_cba_source
     [ImportDeclaration example_side_effect, ImportDeclaration example_cba] =
   Inr [specifierReport example_spec_c example_spec_b]"
  by code_simp

text \<open>The amended C7 at \<^verbatim>\<open>import { c, b, a } from './m'\<close>.\<close>

theorem specifier_check_first_disorder_witness:
  "firstDisorder (namedSpecifiers example_cba) = Some (example_spec_c, example_spec_b) \<and>
   checkSpecifierOrder True example_cba initial_state =
   Inr \<lparr>reports = [specifierReport example_spec_c example_spec_b],
        lastUnsortedDeclaration = Some example_cba,
        declarationsWithUnsortedSpecifiers = [example_cba]\<rparr>"
proof -
  have fd: "firstDisorder (namedSpecifiers example_cba) = Some (example_spec_c, example_spec_b)"
    by code_simp
  show ?thesis
    using specifier_check_first_disorder [of True example_cba initial_state]
    by (simp add: fd initial_state_def)
qed

subsection \<open>The comparison of two adjacent import declarations\<close>

text \<open>
  The first part of the callback adds the diagnostics of the pair to the state, and
  throws when they throw; the state has no other influence.
\<close>

lemma checkDeclarationOrder_shape:
  "checkDeclarationOrder resolves declarationSort p c st =
   bind (declarationReports resolves declarationSort p c) (\<lambda>rs.
     Inr (st\<lparr>lastUnsortedDeclaration := (if rs = [] then lastUnsortedDeclaration st else Some c),
             reports := reports st @ rs\<rparr>))"
  by (simp add: checkDeclarationOrder_def declarationReports_def initial_state_def Let_def
        split: option.split)

lemma checkSpecifierOrder_shape:
  "checkSpecifierOrder fixable cur st =
   Inr (st\<lparr>lastUnsortedDeclaration :=
              (if specifierReports cur = [] then lastUnsortedDeclaration st else Some cur),
           declarationsWithUnsortedSpecifiers :=
              (if specifierReports cur \<noteq> [] \<and> fixable
               then declarationsWithUnsortedSpecifiers st @ [cur]
               else declarationsWithUnsortedSpecifiers st),
           reports := reports st @ specifierReports cur\<rparr>)"
  by (simp add: checkSpecifierOrder_result specifierReports_def split: option.split)

lemma specifierReports_nodes:
  "x \<in> set (specifierReports cur) \<Longrightarrow> fix_result x = None \<and> (\<exists>s. report_node x = SpecNode s)"
  by (auto simp add: specifierReports_def specifierReport_def split: option.splits)

lemma declarationReports_nodes:
  "declarationReports resolves declarationSort p c = Inr rs \<Longrightarrow> x \<in> set rs \<Longrightarrow>
   fix_result x = None \<and> report_node x = DeclNode c"
  by (auto simp add: declarationReports_def checkDeclarationOrder_def initial_state_def Let_def
        split: option.splits if_splits)

lemma declarationReports_unsupported:
  "declarationSort \<noteq> ''import'' \<Longrightarrow> declarationSort \<noteq> ''source'' \<Longrightarrow>
   getImportDeclarationSortIdx resolves c = getImportDeclarationSortIdx resolves p \<Longrightarrow>
   declarationReports resolves declarationSort p c = Inl UnexpectedSortStrategy"
  by (simp add: declarationReports_def checkDeclarationOrder_def)

lemma declarationReports_other_group:
  "getImportDeclarationSortIdx resolves c \<noteq> getImportDeclarationSortIdx resolves p \<Longrightarrow>
   \<exists>rs. declarationReports resolves declarationSort p c = Inr rs"
  by (simp add: declarationReports_def checkDeclarationOrder_def Let_def)

text \<open>The callback of the scan in terms of the diagnostics of the pair.\<close>

lemma compareImports_shape:
  "compareImports resolves declarationSort fixable p c st =
   bind (declarationReports resolves declarationSort p c) (\<lambda>rs.
     Inr (st\<lparr>lastUnsortedDeclaration :=
                (if rs = [] \<and> specifierReports c = [] then lastUnsortedDeclaration st else Some c),
             declarationsWithUnsortedSpecifiers :=
                (if specifierReports c \<noteq> [] \<and> fixable
                 then declarationsWithUnsortedSpecifiers st @ [c]
                 else declarationsWithUnsortedSpecifiers st),
             reports := reports st @ rs @ specifierReports c\<rparr>))"
  by (cases "declarationReports resolves declarationSort p c")
     (simp_all add: compareImports_def checkDeclarationOrder_shape checkSpecifierOrder_shape)

subsection \<open>The scan of the imports\<close>

lemma collectImport_fst:
  "fst (foldl collectImport (imps, nif, fx) body) = imps @ declsOf body"
  by (induction body arbitrary: imps nif fx rule: declsOf.induct) simp_all

lemma collectImport_nonImportFound:
  "fst (snd (foldl collectImport (imps, True, fx) body))"
  by (induction body arbitrary: imps fx rule: declsOf.induct) simp_all

lemma collectImport_unfixable:
  "\<not> snd (snd (foldl collectImport (imps, nif, False) body))"
  by (induction body arbitrary: imps nif rule: declsOf.induct) simp_all

lemma collectImport_imports_only:
  "foldl collectImport (imps, False, fx) (map ImportDeclaration ds) = (imps @ ds, False, fx)"
  by (induction ds arbitrary: imps) simp_all

lemma declsOf_append: "declsOf (xs @ ys) = declsOf xs @ declsOf ys"
  by (induction xs rule: declsOf.induct) simp_all


lemma importsOf_imports_only: "importsOf (map ImportDeclaration ds) = (ds, False, True)"
  using collectImport_imports_only [of "[]" True ds] by (simp add: importsOf_def)

lemma importsOf_fst: "fst (importsOf body) = declsOf body"
  using collectImport_fst [of "[]" False True body] by (simp add: importsOf_def)

text \<open>An import after a statement of another kind after an import clears \<open>fixable\<close>.\<close>

lemma importsOf_interleaved:
  assumes "body = pre @ ImportDeclaration d1 # mid @ OtherStatement l # mid' @ ImportDeclaration d2 # post"
  shows "\<not> snd (snd (importsOf body))"
proof -
  obtain i1 n1 f1 where s1: "foldl collectImport ([], False, True) pre = (i1, n1, f1)"
    by (cases "foldl collectImport ([], False, True) pre") auto
  obtain i2 n2 f2 where s2:
    "foldl collectImport (i1 @ [d1], n1, (if i1 \<noteq> [] \<and> n1 then False else f1)) mid = (i2, n2, f2)"
    by (cases "foldl collectImport (i1 @ [d1], n1, (if i1 \<noteq> [] \<and> n1 then False else f1)) mid") auto
  have i2: "i2 \<noteq> []"
    using collectImport_fst [of "i1 @ [d1]" n1 "(if i1 \<noteq> [] \<and> n1 then False else f1)" mid] s2
    by auto
  obtain i3 n3 f3 where s3: "foldl collectImport (i2, True, f2) mid' = (i3, n3, f3)"
    by (cases "foldl collectImport (i2, True, f2) mid'") auto
  have i3: "i3 \<noteq> []"
    using collectImport_fst [of i2 True f2 mid'] s3 i2 by auto
  have n3: "n3"
    using collectImport_nonImportFound [of i2 f2 mid'] s3 by simp
  have "importsOf body = foldl collectImport (i3 @ [d2], n3, False) post"
    using s1 s2 s3 i2 i3 n3 by (simp add: importsOf_def assms)
  then show ?thesis
    using collectImport_unfixable [of "i3 @ [d2]" n3 post] by simp
qed

lemma reducePairs_step:
  "f x y st = Inr st1 \<Longrightarrow> reducePairs f (x # y # ys) st = reducePairs f (y # ys) st1"
  by simp

lemma reducePairs_error:
  "f x y st = Inl e \<Longrightarrow> reducePairs f (x # y # ys) st = Inl e"
  by simp

lemma compareImports_error:
  "declarationReports resolves declarationSort p c = Inl e \<Longrightarrow>
   compareImports resolves declarationSort fx p c st = Inl e"
  by (simp add: compareImports_shape)

lemma compareImports_summary:
  "declarationReports resolves declarationSort p c = Inr rs \<Longrightarrow>
   \<exists>st1. compareImports resolves declarationSort fx p c st = Inr st1 \<and>
         summary st1 =
           (reports st @ rs @ specifierReports c,
            (if rs = [] \<and> specifierReports c = [] then lastUnsortedDeclaration st else Some c))"
  by (simp add: compareImports_shape summary_def)

lemma compareImports_reports:
  assumes "compareImports resolves declarationSort fx p c st = Inr st1"
  shows "\<exists>rs. declarationReports resolves declarationSort p c = Inr rs \<and>
              reports st1 = reports st @ rs @ specifierReports c"
  using assms
  by (cases "declarationReports resolves declarationSort p c")
     (auto simp add: compareImports_shape)

lemma reducePairs_compareImports_summary:
  "summary st = summary st' \<Longrightarrow>
   map_sum id summary (reducePairs (compareImports resolves declarationSort fx) xs st) =
   map_sum id summary (reducePairs (compareImports resolves declarationSort fx') xs st')"
proof (induction xs arbitrary: st st' rule: induct_list012)
  case 1
  then show ?case by simp
next
  case (2 x)
  then show ?case by simp
next
  case (3 p c zs)
  show ?case
  proof (cases "declarationReports resolves declarationSort p c")
    case (Inl e)
    show ?thesis
      using reducePairs_error [of "compareImports resolves declarationSort fx" p c st e zs,
              OF compareImports_error [OF Inl]]
            reducePairs_error [of "compareImports resolves declarationSort fx'" p c st' e zs,
              OF compareImports_error [OF Inl]]
      by simp
  next
    case (Inr rs)
    from compareImports_summary [OF Inr, of fx st] obtain st1 where
      st1: "compareImports resolves declarationSort fx p c st = Inr st1"
           "summary st1 = (reports st @ rs @ specifierReports c,
              (if rs = [] \<and> specifierReports c = [] then lastUnsortedDeclaration st else Some c))"
      by blast
    from compareImports_summary [OF Inr, of fx' st'] obtain st1' where
      st1': "compareImports resolves declarationSort fx' p c st' = Inr st1'"
            "summary st1' = (reports st' @ rs @ specifierReports c,
              (if rs = [] \<and> specifierReports c = [] then lastUnsortedDeclaration st' else Some c))"
      by blast
    have eq: "summary st1 = summary st1'"
      using st1(2) st1'(2) 3(3) by (simp add: summary_def)
    show ?thesis
      using reducePairs_step [of "compareImports resolves declarationSort fx" p c st st1 zs, OF st1(1)]
            reducePairs_step [of "compareImports resolves declarationSort fx'" p c st' st1' zs, OF st1'(1)]
            3(2) [OF eq]
      by simp
  qed
qed

lemma reducePairs_compareImports_no_fix:
  "reducePairs (compareImports resolves declarationSort fx) xs st = Inr st' \<Longrightarrow>
   \<forall>x \<in> set (reports st). fix_result x = None \<Longrightarrow>
   \<forall>x \<in> set (reports st'). fix_result x = None"
proof (induction xs arbitrary: st rule: induct_list012)
  case 1
  then show ?case by simp
next
  case (2 x)
  then show ?case by simp
next
  case (3 p c zs)
  from 3(3) obtain st1 where step: "compareImports resolves declarationSort fx p c st = Inr st1"
    by (cases "compareImports resolves declarationSort fx p c st") simp_all
  from compareImports_reports [OF step] obtain rs where
    rs: "declarationReports resolves declarationSort p c = Inr rs"
        "reports st1 = reports st @ rs @ specifierReports c"
    by blast
  have rest: "reducePairs (compareImports resolves declarationSort fx) (c # zs) st1 = Inr st'"
    using 3(3) reducePairs_step [of "compareImports resolves declarationSort fx" p c st st1 zs, OF step] by simp
  have "\<forall>x \<in> set (reports st1). fix_result x = None"
    using 3(4) rs(2) declarationReports_nodes [OF rs(1)] specifierReports_nodes [of _ c] by auto
  with rest show ?case by (rule 3(2))
qed

subsection \<open>C9: statements of another kind among the imports\<close>

text \<open>\<open>Program\<close> on a module with at least two imports.\<close>

lemma Program_scan:
  assumes "importsOf body = (imps, nif, fixable)" "2 \<le> length body" "2 \<le> length imps"
  shows "Program resolves opts source body =
     bind (reducePairs
             (compareImports resolves
                (case opt_declarationSort opts of None \<Rightarrow> ''source'' | Some v \<Rightarrow> v) fixable)
             imps initial_state) (\<lambda>st.
       (case lastUnsortedDeclaration st of
          None \<Rightarrow> Inr (reports st)
        | Some d \<Rightarrow>
            if (case opt_fix opts of None \<Rightarrow> False | Some v \<Rightarrow> v) \<and> fixable then
              Inr (reports st @
                [\<lparr>report_node = DeclNode d,
                  message = ''Expected imports to be sorted.'',
                  data = [],
                  fix_result = Some (importsFix resolves
                     (case opt_declarationSort opts of None \<Rightarrow> ''source'' | Some v \<Rightarrow> v)
                     source imps (declarationsWithUnsortedSpecifiers st))\<rparr>])
            else Inr (reports st)))"
  using assms by (simp add: Program_def Let_def initial_state_def)

lemma Program_few_imports:
  "length (declsOf body) < 2 \<Longrightarrow> Program resolves opts source body = Inr []"
  using importsOf_fst [of body]
  by (cases "importsOf body") (simp add: Program_def Let_def)

text \<open>
  C9. When a statement of another kind stands between two import declarations of the
  module, \<open>Program\<close> returns (or throws) what it returns for the module made of the import
  declarations alone, without the report that carries the fix; and no report that it
  returns carries a fix.
\<close>

theorem interleaved_statement_suppresses_fix:
  assumes "body = pre @ ImportDeclaration d1 # mid @ OtherStatement l # mid' @
                  ImportDeclaration d2 # post"
  shows "Program resolves opts source body =
           map_sum id (filter (\<lambda>x. fix_result x = None))
             (Program resolves opts source (map ImportDeclaration (declsOf body))) \<and>
         (\<forall>rs. Program resolves opts source body = Inr rs \<longrightarrow>
               (\<forall>x \<in> set rs. fix_result x = None))"
proof -
  let ?ds = "case opt_declarationSort opts of None \<Rightarrow> ''source'' | Some v \<Rightarrow> v"
  let ?imps = "declsOf body"
  obtain nif where io: "importsOf body = (?imps, nif, False)"
    using importsOf_fst [of body] importsOf_interleaved [OF assms]
    by (cases "importsOf body") auto
  have len: "2 \<le> length body" "2 \<le> length ?imps"
    by (simp_all add: assms declsOf_append)
  have len': "2 \<le> length (map ImportDeclaration ?imps)"
    using len(2) by simp
  let ?run = "\<lambda>fx. reducePairs (compareImports resolves ?ds fx) ?imps initial_state"
  have p1: "Program resolves opts source body = bind (?run False) (\<lambda>st. Inr (reports st))"
  proof (cases "?run False")
    case (Inl e)
    then show ?thesis by (simp add: Program_scan [OF io len])
  next
    case (Inr st)
    then show ?thesis
      by (cases "lastUnsortedDeclaration st") (simp_all add: Program_scan [OF io len])
  qed
  have same: "map_sum id summary (?run False) = map_sum id summary (?run True)"
    by (rule reducePairs_compareImports_summary) simp
  have nofix: "\<And>fx st. ?run fx = Inr st \<Longrightarrow> \<forall>x \<in> set (reports st). fix_result x = None"
    by (erule reducePairs_compareImports_no_fix) (simp add: initial_state_def)
  have p2: "map_sum id (filter (\<lambda>x. fix_result x = None))
              (Program resolves opts source (map ImportDeclaration ?imps)) =
            bind (?run True) (\<lambda>st. Inr (reports st))"
  proof (cases "?run True")
    case (Inl e)
    then show ?thesis
      by (simp add: Program_scan [OF importsOf_imports_only len' len(2)])
  next
    case (Inr st)
    have "filter (\<lambda>x. fix_result x = None) (reports st) = reports st"
      using nofix [OF Inr] by (simp add: filter_id_conv)
    with Inr show ?thesis
      by (cases "lastUnsortedDeclaration st")
         (simp_all add: Program_scan [OF importsOf_imports_only len' len(2)])
  qed
  have p3: "bind (?run False) (\<lambda>st. Inr (reports st)) = bind (?run True) (\<lambda>st. Inr (reports st))"
  proof (cases "?run False")
    case (Inl e)
    with same show ?thesis by (cases "?run True") simp_all
  next
    case (Inr st)
    with same show ?thesis by (cases "?run True") (simp_all add: summary_def)
  qed
  have first: "Program resolves opts source body =
           map_sum id (filter (\<lambda>x. fix_result x = None))
             (Program resolves opts source (map ImportDeclaration ?imps))"
    using p1 p2 p3 by simp
  have second: "\<forall>rs. Program resolves opts source body = Inr rs \<longrightarrow>
               (\<forall>x \<in> set rs. fix_result x = None)"
  proof (intro allI impI)
    fix rs
    assume "Program resolves opts source body = Inr rs"
    with p1 obtain st where "?run False = Inr st" "rs = reports st"
      by (cases "?run False") auto
    with nofix show "\<forall>x \<in> set rs. fix_result x = None" by blast
  qed
  from first second show ?thesis by blast
qed

text \<open>
  C9 at \<^verbatim>\<open>import b from './b'\<close>, \<^verbatim>\<open>const x = 1\<close>, \<^verbatim>\<open>import a from './a'\<close> with fixing
  switched on: one diagnostic and no fix, where the two imports alone get the same
  diagnostic and the fix that swaps them.
\<close>

theorem interleaved_statement_suppresses_fix_witness:
  "example_interleaved_body =
     [] @ ImportDeclaration example_import_b # [] @
     OtherStatement \<lparr>node_range = (20, 31), commentsBefore = []\<rparr> # [] @
     ImportDeclaration example_import_a # [] \<and>
   Program (\<lambda>_. False) \<lparr>opt_declarationSort = None, opt_fix = Some True\<rparr>
     example_interleaved_source example_interleaved_body = Inr [example_source_report] \<and>
   Program (\<lambda>_. False) \<lparr>opt_declarationSort = None, opt_fix = Some True\<rparr>
     example_interleaved_source
     [ImportDeclaration example_import_b, ImportDeclaration example_import_a] =
     Inr [example_source_report,
          \<lparr>report_node = DeclNode example_import_a,
           message = ''Expected imports to be sorted.'', data = [],
           fix_result = Some (Inr [((0, 51),
             ''import a from '' @ [CHR 0x27] @ ''./a'' @ [CHR 0x27, CHR 0x0A] @
             ''import b from '' @ [CHR 0x27] @ ''./b'' @ [CHR 0x27])])\<rparr>]"
proof -
  have shape: "example_interleaved_body =
     [] @ ImportDeclaration example_import_b # [] @
     OtherStatement \<lparr>node_range = (20, 31), commentsBefore = []\<rparr> # [] @
     ImportDeclaration example_import_a # []"
    by (simp add: example_interleaved_body_def example_const_def)
  have plain: "Program (\<lambda>_. False) \<lparr>opt_declarationSort = None, opt_fix = Some True\<rparr>
     example_interleaved_source
     [ImportDeclaration example_import_b, ImportDeclaration example_import_a] =
     Inr [example_source_report,
          \<lparr>report_node = DeclNode example_import_a,
           message = ''Expected imports to be sorted.'', data = [],
           fix_result = Some (Inr [((0, 51),
             ''import a from '' @ [CHR 0x27] @ ''./a'' @ [CHR 0x27, CHR 0x0A] @
             ''import b from '' @ [CHR 0x27] @ ''./b'' @ [CHR 0x27])])\<rparr>]"
    by code_simp
  have decls: "map ImportDeclaration (declsOf example_interleaved_body) =
     [ImportDeclaration example_import_b, ImportDeclaration example_import_a]"
    by (simp add: example_interleaved_body_def example_const_def)
  have "Program (\<lambda>_. False) \<lparr>opt_declarationSort = None, opt_fix = Some True\<rparr>
     example_interleaved_source example_interleaved_body = Inr [example_source_report]"
    using interleaved_statement_suppresses_fix [OF shape, of "\<lambda>_. False"
            "\<lparr>opt_declarationSort = None, opt_fix = Some True\<rparr>" example_interleaved_source]
    by (simp add: decls plain example_source_report_def)
  with shape plain show ?thesis by blast
qed

subsection \<open>C8: an unsupported value of declarationSort\<close>

lemma length_declsOf: "length (declsOf body) \<le> length body"
  by (induction body rule: declsOf.induct) simp_all

lemma hasSameGroupPair_short: "length xs < 2 \<Longrightarrow> \<not> hasSameGroupPair resolves xs"
  by (induction xs rule: induct_list012) simp_all

lemma reducePairs_unsupported:
  assumes "declarationSort \<noteq> ''import''" "declarationSort \<noteq> ''source''"
  shows "xs \<noteq> [] \<Longrightarrow>
    (hasSameGroupPair resolves xs \<longrightarrow>
       reducePairs (compareImports resolves declarationSort fx) xs st = Inl UnexpectedSortStrategy) \<and>
    (\<not> hasSameGroupPair resolves xs \<longrightarrow>
       (\<exists>st'. reducePairs (compareImports resolves declarationSort fx) xs st = Inr st'))"
proof (induction xs arbitrary: st rule: induct_list012)
  case 1
  then show ?case by simp
next
  case (2 x)
  then show ?case by simp
next
  case (3 p c zs)
  show ?case
  proof (cases "getImportDeclarationSortIdx resolves c = getImportDeclarationSortIdx resolves p")
    case True
    have "compareImports resolves declarationSort fx p c st = Inl UnexpectedSortStrategy"
      by (rule compareImports_error) (rule declarationReports_unsupported [OF assms True])
    then have "reducePairs (compareImports resolves declarationSort fx) (p # c # zs) st =
        Inl UnexpectedSortStrategy"
      by (rule reducePairs_error)
    with True show ?thesis by simp
  next
    case False
    from declarationReports_other_group [OF False, of declarationSort] obtain rs where
      rs: "declarationReports resolves declarationSort p c = Inr rs" by blast
    from compareImports_summary [OF rs, of fx st] obtain st1 where
      st1: "compareImports resolves declarationSort fx p c st = Inr st1" by blast
    have step: "reducePairs (compareImports resolves declarationSort fx) (p # c # zs) st =
        reducePairs (compareImports resolves declarationSort fx) (c # zs) st1"
      using st1 by (rule reducePairs_step)
    have "c # zs \<noteq> []" by simp
    from 3(2) [OF this, of st1] False step show ?thesis by simp
  qed
qed

lemma sortBy_failing_comparator:
  "(\<And>a b. cmp a b = Inl e) \<Longrightarrow> sortBy cmp xs = (if length xs < 2 then Inr xs else Inl e)"
proof (induction xs)
  case Nil
  then show ?case by simp
next
  case (Cons x xs)
  show ?case
  proof (cases xs)
    case Nil
    then show ?thesis by simp
  next
    case (Cons y ys)
    then show ?thesis
      using Cons.IH [OF Cons.prems] Cons.prems [of x y]
      by (cases ys) simp_all
  qed
qed

lemma fixDeclarations_unsupported:
  assumes "declarationSort \<noteq> ''import''" "declarationSort \<noteq> ''source''" "2 \<le> length imports"
  shows "fixDeclarations resolves declarationSort source imports = Inl UnexpectedSortStrategy"
proof -
  have key: "\<And>a b. getSorter (declarationSortKey resolves declarationSort) a b =
      Inl UnexpectedSortStrategy"
    using assms(1,2) by (simp add: getSorter_def declarationSortKey_def)
  have "sortDeclarations resolves declarationSort imports = Inl UnexpectedSortStrategy"
    unfolding sortDeclarations_def using sortBy_failing_comparator [OF key, where xs = "imports"] assms(3)
    by simp
  moreover obtain r where
    "getSpanningRange (map (\<lambda>n. node_range (decl_loc n)) imports) = Inr r"
    using assms(3) by (cases "imports") (simp_all add: getSpanningRange_def)
  ultimately show ?thesis by (simp add: fixDeclarations_def)
qed

text \<open>
  C8 as stated fails: with the unsupported value \<open>name\<close>, a side effect import followed by
  an import of a package are two import declarations, and \<open>Program\<close> returns without a
  report and without an error.
\<close>

theorem unsupported_sort_strategy_counterexample:
  "2 \<le> length (declsOf [ImportDeclaration example_side_effect, ImportDeclaration example_react_second]) \<and>
   ''name'' \<noteq> ''import'' \<and> ''name'' \<noteq> ''source'' \<and>
   Program (\<lambda>_. True) \<lparr>opt_declarationSort = Some ''name'', opt_fix = Some True\<rparr>
     example_two_groups_source
     [ImportDeclaration example_side_effect, ImportDeclaration example_react_second] = Inr []"
  by code_simp

subsection \<open>Sorting with string keys\<close>

lemma getSorter_strings:
  assumes "sortFunction a = Inr (Str ka)" "sortFunction b = Inr (Str kb)"
  shows "getSorter sortFunction a b = Inr (if ka = kb then 0 else if ka < kb then - 1 else 1)"
  using assms by (simp add: getSorter_def)

lemma insertBy_string_keys:
  assumes "\<And>x. sortFunction x = Inr (Str (k x))"
  shows "insertBy (getSorter sortFunction) x ys = Inr (insort_key k x ys)"
proof (induction ys)
  case Nil
  then show ?case by simp
next
  case (Cons y ys)
  have cmp: "getSorter sortFunction x y =
      Inr (if k x = k y then 0 else if k x < k y then - 1 else 1)"
    by (rule getSorter_strings) (rule assms)+
  show ?case
    using Cons.IH by (auto simp add: cmp)
qed

lemma sortBy_string_keys:
  assumes "\<And>x. sortFunction x = Inr (Str (k x))"
  shows "sortBy (getSorter sortFunction) xs = Inr (sort_key k xs)"
  by (induction xs) (simp_all add: insertBy_string_keys [OF assms])

subsection \<open>C2: the stable sort by the composite key and the check of the declarations\<close>











subsection \<open>C4: the range that a fix replaces\<close>

lemma getSpanningRange_span:
  "getSpanningRange (map (\<lambda>n. node_range (f n)) xs) = Inr r \<longleftrightarrow>
   xs \<noteq> [] \<and> r = spanOf (map f xs)"
  by (cases xs) (auto simp add: getSpanningRange_def spanOf_def last_map)

lemma mapResult_elements:
  "mapResult f xs = Inr ys \<Longrightarrow> y \<in> set ys \<Longrightarrow> \<exists>x \<in> set xs. f x = Inr y"
proof (induction xs arbitrary: ys)
  case Nil
  then show ?case by simp
next
  case (Cons x xs)
  from Cons.prems(1) obtain z zs where z: "f x = Inr z" "mapResult f xs = Inr zs" "ys = z # zs"
    by (auto simp add: bind_eq_Inr)
  with Cons.prems(2) Cons.IH [OF z(2)] show ?case by auto
qed

lemma fixSpecifiers_range:
  "fixSpecifiers source imp = Inr e \<Longrightarrow>
   namedSpecifiers imp \<noteq> [] \<and> fst e = spanOf (map spec_loc (namedSpecifiers imp))"
  using getSpanningRange_span [of spec_loc "namedSpecifiers imp"]
  by (auto simp add: fixSpecifiers_def Let_def bind_eq_Inr namedSpecifiers_def)

lemma fixDeclarations_range:
  "fixDeclarations resolves declarationSort source xs = Inr e \<Longrightarrow>
   xs \<noteq> [] \<and> fst e = spanOf (map decl_loc xs)"
  using getSpanningRange_span [of decl_loc xs]
  by (auto simp add: fixDeclarations_def bind_eq_Inr)

text \<open>
  C4 (as amended). Every range that a fix replaces starts at the start of the first
  original node itself and ends at the end of the last original node, whatever comments
  stand before the first node: for the imports the nodes are all import declarations of
  the module, or the named specifiers of one declaration whose specifiers are out of
  order; for a pattern or an object literal they are the properties given to the fix.
\<close>

theorem fix_range_is_node_span:
  "(importsFix resolves declarationSort source xs unsorted = Inr edits \<longrightarrow>
      (\<forall>e \<in> set edits.
         (unsorted = [] \<and> xs \<noteq> [] \<and> fst e = spanOf (map decl_loc xs)) \<or>
         (\<exists>imp \<in> set unsorted.
            namedSpecifiers imp \<noteq> [] \<and> fst e = spanOf (map spec_loc (namedSpecifiers imp))))) \<and>
   (fixProperties sortKey source first props = Inr pedits \<longrightarrow>
      props \<noteq> [] \<and> (\<exists>text. pedits = [(spanOf (map prop_loc props), text)]))"
proof -
  have decls: "\<forall>e \<in> set edits.
         (unsorted = [] \<and> xs \<noteq> [] \<and> fst e = spanOf (map decl_loc xs)) \<or>
         (\<exists>imp \<in> set unsorted.
            namedSpecifiers imp \<noteq> [] \<and> fst e = spanOf (map spec_loc (namedSpecifiers imp)))"
    if run: "importsFix resolves declarationSort source xs unsorted = Inr edits"
  proof
    fix e
    assume e: "e \<in> set edits"
    show "(unsorted = [] \<and> xs \<noteq> [] \<and> fst e = spanOf (map decl_loc xs)) \<or>
          (\<exists>imp \<in> set unsorted.
              namedSpecifiers imp \<noteq> [] \<and> fst e = spanOf (map spec_loc (namedSpecifiers imp)))"
    proof (cases "unsorted = []")
      case True
      with run e have "fixDeclarations resolves declarationSort source xs = Inr e"
        by (auto simp add: importsFix_def bind_eq_Inr)
      from fixDeclarations_range [OF this] True show ?thesis by simp
    next
      case False
      with run have "mapResult (fixSpecifiers source) unsorted = Inr edits"
        by (simp add: importsFix_def)
      from mapResult_elements [OF this e] obtain imp where
        "imp \<in> set unsorted" "fixSpecifiers source imp = Inr e" by blast
      with fixSpecifiers_range [of source imp e] show ?thesis by blast
    qed
  qed
  have properties: "props \<noteq> [] \<and> (\<exists>text. pedits = [(spanOf (map prop_loc props), text)])"
    if "fixProperties sortKey source first props = Inr pedits"
    using that getSpanningRange_span [of prop_loc props]
    by (auto simp add: fixProperties_def bind_eq_Inr)
  from decls properties show ?thesis by blast
qed

text \<open>
  C4 as stated fails: the first declaration has a comment that starts at offset 0, and
  the fix replaces the range that starts at offset 8, where the declaration itself starts.
\<close>

theorem fix_range_counterexample:
  "commentsBefore (decl_loc example_commented_b) = [(0, 7)] \<and>
   Program (\<lambda>_. False) \<lparr>opt_declarationSort = None, opt_fix = Some True\<rparr>
     example_commented_source
     [ImportDeclaration example_commented_b, ImportDeclaration example_after_commented] =
   Inr [\<lparr>report_node = DeclNode example_after_commented,
         message = ''Expected imports from '' @ [CHR 0x27] @ ''{{a}}'' @ [CHR 0x27] @
                   '' to be before imports from '' @ [CHR 0x27] @ ''{{b}}'' @ [CHR 0x27],
         data = [(''a'', Some ''./a''), (''b'', Some ''./b'')],
         fix_result = None\<rparr>,
        \<lparr>report_node = DeclNode example_after_commented,
         message = ''Expected imports to be sorted.'', data = [],
         fix_result = Some (Inr [((8, 47), example_swapped_text)])\<rparr>]"
  by code_simp

text \<open>The amended C4 at the same module.\<close>

theorem fix_range_is_node_span_witness:
  "importsFix (\<lambda>_. False) ''source'' example_commented_source
     [example_commented_b, example_after_commented] [] =
     Inr [((8, 47), example_swapped_text)] \<and>
   spanOf (map decl_loc [example_commented_b, example_after_commented]) = (8, 47)"
proof -
  have run: "importsFix (\<lambda>_. False) ''source'' example_commented_source
     [example_commented_b, example_after_commented] [] =
     Inr [((8, 47), example_swapped_text)]"
    by code_simp
  from fix_range_is_node_span [of "\<lambda>_. False" "''source''" example_commented_source
         "[example_commented_b, example_after_commented]" "[]"
         "[((8, 47), example_swapped_text)]"] run
  have "spanOf (map decl_loc [example_commented_b, example_after_commented]) = (8, 47)"
    by simp
  with run show ?thesis by simp
qed

subsection \<open>C6: rest elements in patterns\<close>

lemma comparePatternProps_shape:
  "comparePatternProps p c (b, reps) =
   Inr (b \<and> patternReports [p, c] = [], reps @ patternReports [p, c])"
  by (simp add: comparePatternProps_def restNotLastReport_def patternOrderReport_def
        propName_def Let_def)

lemma patternReports_step:
  "patternReports (p # c # zs) = patternReports [p, c] @ patternReports (c # zs)"
  by simp

lemma reducePairs_pattern:
  "xs \<noteq> [] \<Longrightarrow>
   reducePairs comparePatternProps xs (b, reps) =
   Inr (b \<and> patternReports xs = [], reps @ patternReports xs)"
proof (induction xs arbitrary: b reps rule: induct_list012)
  case 1
  then show ?case by simp
next
  case (2 x)
  then show ?case by simp
next
  case (3 p c zs)
  have "reducePairs comparePatternProps (p # c # zs) (b, reps) =
        reducePairs comparePatternProps (c # zs)
          (b \<and> patternReports [p, c] = [], reps @ patternReports [p, c])"
    by (rule reducePairs_step) (rule comparePatternProps_shape)
  also have "\<dots> = Inr ((b \<and> patternReports [p, c] = []) \<and> patternReports (c # zs) = [],
                       (reps @ patternReports [p, c]) @ patternReports (c # zs))"
    by (rule 3(2)) simp
  finally show ?case
    by (simp only: patternReports_step [of p c zs] append_assoc append_is_Nil_conv conj_assoc)
qed

text \<open>What \<open>ObjectPattern\<close> returns: the diagnostics of the pairs, and then the fix.\<close>

lemma ObjectPattern_reports:
  "ObjectPattern opts source props =
   Inr (patternReports props @
        (if patternReports props \<noteq> [] \<and> (case key_fix opts of None \<Rightarrow> False | Some v \<Rightarrow> v)
         then [\<lparr>report_node = ObjectNode,
                message = ''Expected object properties to be sorted.'',
                data = [],
                fix_result = Some (fixProperties patternSortKey source (nthOpt props 0) props)\<rparr>]
         else []))"
proof (cases "props = []")
  case True
  then show ?thesis by (simp add: ObjectPattern_def arrayLessThan_2_iff)
next
  case False
  then show ?thesis
    by (simp add: ObjectPattern_def arrayLessThan_2_iff reducePairs_pattern)
qed

lemma patternReports_Cons:
  "patternReports (x # ys) =
   (case ys of [] \<Rightarrow> [] | y # _ \<Rightarrow> patternReports [x, y]) @ patternReports ys"
  by (cases ys) simp_all

lemma patternReports_suffix:
  "set (patternReports ys) \<subseteq> set (patternReports (xs @ ys))"
proof (induction xs)
  case Nil
  then show ?case by simp
next
  case (Cons x xs)
  have "set (patternReports (xs @ ys)) \<subseteq> set (patternReports (x # xs @ ys))"
    using patternReports_Cons [of x "xs @ ys"] by simp
  with Cons show ?case by auto
qed

lemma rest_before_property_reported:
  assumes "isRestElement r" "\<not> isRestElement q"
  shows "restNotLastReport r \<in> set (patternReports (pre @ r # q # post))"
proof -
  have "restNotLastReport r \<in> set (patternReports (r # q # post))"
    using assms by simp
  with patternReports_suffix [of "r # q # post" pre] show ?thesis by blast
qed

lemma rest_not_last_reported:
  assumes "\<not> isRestElement q"
  shows "isRestElement r \<Longrightarrow>
         \<exists>p. isRestElement p \<and>
             restNotLastReport p \<in> set (patternReports (pre @ r # mid @ q # post))"
proof (induction mid arbitrary: pre r)
  case Nil
  with rest_before_property_reported [OF Nil assms, of pre post] show ?case by auto
next
  case (Cons m mid)
  show ?case
  proof (cases "isRestElement m")
    case True
    from Cons.IH [OF True, of "pre @ [r]"] show ?thesis by simp
  next
    case False
    from rest_before_property_reported [OF Cons.prems False, of pre "mid @ q # post"]
    show ?thesis using Cons.prems by auto
  qed
qed

lemma patternReports_rest_last:
  assumes "isRestElement r"
  shows "\<forall>p \<in> set ps. \<not> isRestElement p \<Longrightarrow> x \<in> set (patternReports (ps @ [r])) \<Longrightarrow>
         \<exists>p c. p \<in> set ps \<and> c \<in> set ps \<and> x = patternOrderReport p c"
proof (induction ps rule: induct_list012)
  case 1
  then show ?case by simp
next
  case (2 p)
  then show ?case using assms by simp
next
  case (3 p c zs)
  from 3(4) have "x \<in> set (patternReports [p, c]) \<or> x \<in> set (patternReports ((c # zs) @ [r]))"
    by (simp del: patternReports.simps add: patternReports_step [of p c "zs @ [r]"])
  then show ?case
  proof
    assume "x \<in> set (patternReports [p, c])"
    with 3(3) have "x = patternOrderReport p c"
      by (auto split: if_splits)
    then show ?thesis by auto
  next
    assume "x \<in> set (patternReports ((c # zs) @ [r]))"
    with 3(2) 3(3) obtain p' c' where "p' \<in> set (c # zs)" "c' \<in> set (c # zs)"
      "x = patternOrderReport p' c'"
      by auto
    then show ?thesis by auto
  qed
qed

lemma patternReports_nodes:
  "x \<in> set (patternReports xs) \<Longrightarrow>
   \<exists>p. report_node x = PropNode p \<and>
       (p \<in> set (butlast xs) \<or> p \<in> set xs \<and> \<not> isRestElement p)"
proof (induction xs rule: induct_list012)
  case 1
  then show ?case by simp
next
  case (2 p)
  then show ?case by simp
next
  case (3 p c zs)
  from 3(3) have "x \<in> set (patternReports [p, c]) \<or> x \<in> set (patternReports (c # zs))"
    by (simp del: patternReports.simps add: patternReports_step [of p c zs])
  then show ?case
  proof
    assume "x \<in> set (patternReports [p, c])"
    then show ?thesis
      by (auto simp add: restNotLastReport_def patternOrderReport_def split: if_splits)
  next
    assume "x \<in> set (patternReports (c # zs))"
    from 3(2) [OF this] show ?thesis by auto
  qed
qed

text \<open>The sorter of the pattern fix keeps a rest element behind every property.\<close>

lemma patternSortKey_property:
  "\<not> isRestElement p \<Longrightarrow> patternSortKey p = Inr (Str (toLowerCase (propName p)))"
  by (simp add: patternSortKey_def propName_def)

lemma insertBy_before_rest:
  assumes "isRestElement r" "\<not> isRestElement x"
  shows "\<forall>y \<in> set ys. \<not> isRestElement y \<Longrightarrow>
         insertBy (getSorter patternSortKey) x (ys @ [r]) =
         Inr (insort_key (\<lambda>p. toLowerCase (propName p)) x ys @ [r])"
proof (induction ys)
  case Nil
  have "getSorter patternSortKey x r = Inr (- 1)"
    using assms by (simp add: getSorter_def patternSortKey_def)
  then show ?case by simp
next
  case (Cons y ys)
  have cmp: "getSorter patternSortKey x y =
      Inr (if toLowerCase (propName x) = toLowerCase (propName y) then 0
           else if toLowerCase (propName x) < toLowerCase (propName y) then - 1 else 1)"
    using assms(2) Cons.prems
    by (intro getSorter_strings patternSortKey_property) simp_all
  show ?case
    using Cons by (auto simp add: cmp)
qed

lemma sortBy_rest_last:
  assumes "isRestElement r"
  shows "\<forall>p \<in> set ps. \<not> isRestElement p \<Longrightarrow>
         sortBy (getSorter patternSortKey) (ps @ [r]) =
         Inr (sort_key (\<lambda>p. toLowerCase (propName p)) ps @ [r])"
proof (induction ps)
  case Nil
  then show ?case by simp
next
  case (Cons p ps)
  have "\<forall>y \<in> set (sort_key (\<lambda>p. toLowerCase (propName p)) ps). \<not> isRestElement y"
    using Cons.prems by simp
  from insertBy_before_rest [OF assms _ this, of p] Cons show ?case
    by simp
qed

text \<open>
  C6. For a pattern whose last entry is a rest element, no report of \<open>ObjectPattern\<close> is
  about that entry. When the other entries are properties, no report says that a rest
  element must be last, and the sorter of the fix returns the properties, sorted stably by
  their names in lower case, followed by the rest element. For a pattern in which a
  property comes after a rest element, one of the reports says, about a rest element,
  that it must be the last property. \<open>ObjectPattern\<close> throws in none of these cases.
\<close>

theorem rest_element_pinned_last:
  "(isRestElement r \<and> r \<notin> set ps \<longrightarrow>
      (\<exists>rs. ObjectPattern opts source (ps @ [r]) = Inr rs \<and>
            (\<forall>x \<in> set rs. report_node x \<noteq> PropNode r))) \<and>
   (isRestElement r \<and> (\<forall>p \<in> set ps. \<not> isRestElement p) \<longrightarrow>
      (\<exists>rs. ObjectPattern opts source (ps @ [r]) = Inr rs \<and>
            (\<forall>x \<in> set rs.
               report_node x \<noteq> PropNode r \<and>
               message x \<noteq> ''Expected rest element to be the last property.'')) \<and>
      sortBy (getSorter patternSortKey) (ps @ [r]) =
        Inr (sort_key (\<lambda>p. toLowerCase (propName p)) ps @ [r])) \<and>
   (isRestElement r' \<and> \<not> isRestElement q \<longrightarrow>
      (\<exists>rs. ObjectPattern opts source (pre @ r' # mid @ q # post) = Inr rs \<and>
            (\<exists>x \<in> set rs.
               message x = ''Expected rest element to be the last property.'' \<and>
               (\<exists>p. isRestElement p \<and> report_node x = PropNode p))))"
proof -
  have unreported: "(\<exists>rs. ObjectPattern opts source (ps @ [r]) = Inr rs \<and>
            (\<forall>x \<in> set rs. report_node x \<noteq> PropNode r))"
    if r: "isRestElement r" and ps: "r \<notin> set ps"
  proof -
    have "report_node x \<noteq> PropNode r" if "x \<in> set (patternReports (ps @ [r]))" for x
      using patternReports_nodes [OF that] r ps by auto
    then show ?thesis
      by (auto simp add: ObjectPattern_reports)
  qed
  have last: "(\<exists>rs. ObjectPattern opts source (ps @ [r]) = Inr rs \<and>
            (\<forall>x \<in> set rs.
               report_node x \<noteq> PropNode r \<and>
               message x \<noteq> ''Expected rest element to be the last property.''))"
    if r: "isRestElement r" and ps: "\<forall>p \<in> set ps. \<not> isRestElement p"
  proof -
    have "report_node x \<noteq> PropNode r \<and>
          message x \<noteq> ''Expected rest element to be the last property.''"
      if "x \<in> set (patternReports (ps @ [r]))" for x
    proof -
      from patternReports_rest_last [OF r ps that] obtain p c where
        "c \<in> set ps" "x = patternOrderReport p c" by blast
      with r ps show ?thesis by (auto simp add: patternOrderReport_def)
    qed
    then show ?thesis
      by (auto simp add: ObjectPattern_reports)
  qed
  have notlast: "(\<exists>rs. ObjectPattern opts source (pre @ r' # mid @ q # post) = Inr rs \<and>
            (\<exists>x \<in> set rs.
               message x = ''Expected rest element to be the last property.'' \<and>
               (\<exists>p. isRestElement p \<and> report_node x = PropNode p)))"
    if r': "isRestElement r'" and q: "\<not> isRestElement q"
  proof -
    from rest_not_last_reported [OF q r', of pre mid post] obtain p where
      p: "isRestElement p"
         "restNotLastReport p \<in> set (patternReports (pre @ r' # mid @ q # post))"
      by blast
    have "message (restNotLastReport p) = ''Expected rest element to be the last property.'' \<and>
          report_node (restNotLastReport p) = PropNode p"
      by (simp add: restNotLastReport_def)
    with p show ?thesis
      by (subst ObjectPattern_reports) (rule exI, rule conjI, rule refl, auto)
  qed
  from unreported last notlast sortBy_rest_last show ?thesis by blast
qed

text \<open>
  C6 at \<^verbatim>\<open>const {b, a, ...rest} = o\<close>: the only diagnostic of a pair is that \<open>a\<close> comes
  before \<open>b\<close>, and the fix gives \<^verbatim>\<open>const {a, b, ...rest} = o\<close>; and at
  \<^verbatim>\<open>const {...rest, b} = o\<close>: the rest element is reported.
\<close>

theorem rest_element_pinned_last_witness:
  "ObjectPattern \<lparr>key_fix = Some True\<rparr> example_pattern_source
     [example_prop_b, example_prop_a, example_rest] =
     Inr [patternOrderReport example_prop_b example_prop_a,
          \<lparr>report_node = ObjectNode,
           message = ''Expected object properties to be sorted.'', data = [],
           fix_result = Some (Inr [((7, 20), ''a, b, ...rest'')])\<rparr>] \<and>
   applyEdit example_pattern_source ((7, 20), ''a, b, ...rest'') = ''const {a, b, ...rest} = o'' \<and>
   sortBy (getSorter patternSortKey) [example_prop_b, example_prop_a, example_rest] =
     Inr [example_prop_a, example_prop_b, example_rest] \<and>
   ObjectPattern \<lparr>key_fix = None\<rparr> ''const {...rest, b} = o''
     [example_rest_first, example_prop_after_rest] =
     Inr [restNotLastReport example_rest_first]"
proof -
  have rest: "isRestElement example_rest \<and>
      (\<forall>p \<in> set [example_prop_b, example_prop_a]. \<not> isRestElement p)"
    by (simp add: isRestElement_def example_rest_def example_prop_b_def example_prop_a_def)
  have first: "isRestElement example_rest_first \<and> \<not> isRestElement example_prop_after_rest"
    by (simp add: isRestElement_def example_rest_first_def example_prop_after_rest_def)
  have sorted: "sort_key (\<lambda>p. toLowerCase (propName p)) [example_prop_b, example_prop_a] =
      [example_prop_a, example_prop_b]"
    by code_simp
  have run: "ObjectPattern \<lparr>key_fix = Some True\<rparr> example_pattern_source
     [example_prop_b, example_prop_a, example_rest] =
     Inr [patternOrderReport example_prop_b example_prop_a,
          \<lparr>report_node = ObjectNode,
           message = ''Expected object properties to be sorted.'', data = [],
           fix_result = Some (Inr [((7, 20), ''a, b, ...rest'')])\<rparr>]"
    by code_simp
  have edit: "applyEdit example_pattern_source ((7, 20), ''a, b, ...rest'') =
      ''const {a, b, ...rest} = o''"
    by code_simp
  have run2: "ObjectPattern \<lparr>key_fix = None\<rparr> ''const {...rest, b} = o''
     [example_rest_first, example_prop_after_rest] =
     Inr [restNotLastReport example_rest_first]"
    by code_simp
  from rest_element_pinned_last [of example_rest "[example_prop_b, example_prop_a]"
         "\<lparr>key_fix = Some True\<rparr>" example_pattern_source
         example_rest_first example_prop_after_rest "[]" "[]" "[]"] rest first
  have "sortBy (getSorter patternSortKey) ([example_prop_b, example_prop_a] @ [example_rest]) =
      Inr (sort_key (\<lambda>p. toLowerCase (propName p)) [example_prop_b, example_prop_a] @
           [example_rest])"
    by blast
  then have "sortBy (getSorter patternSortKey) [example_prop_b, example_prop_a, example_rest] =
     Inr [example_prop_a, example_prop_b, example_rest]"
    by (simp only: sorted append.simps)
  with run edit run2 show ?thesis by blast
qed

subsection \<open>C5: spread properties in object literals\<close>

lemma splitRuns_takeWhile:
  "splitRuns xs =
   (if takeWhile (\<lambda>q. \<not> isSpread q) xs = [] then [] else [takeWhile (\<lambda>q. \<not> isSpread q) xs]) @
   splitRuns (dropWhile (\<lambda>q. \<not> isSpread q) xs)"
  by (cases xs) simp_all

lemma propSpansFrom_runs:
  "rest \<noteq> [] \<Longrightarrow> n = idx + length rest \<Longrightarrow>
   propSpansFrom n idx rest (spans, cur) =
   spans @
   (if cur @ takeWhile (\<lambda>q. \<not> isSpread q) rest = [] then []
    else [cur @ takeWhile (\<lambda>q. \<not> isSpread q) rest]) @
   splitRuns (dropWhile (\<lambda>q. \<not> isSpread q) rest)"
proof (induction rest arbitrary: idx spans cur)
  case Nil
  then show ?case by simp
next
  case (Cons p ps)
  show ?case
  proof (cases "ps = []")
    case True
    with Cons.prems show ?thesis by (simp add: Let_def)
  next
    case False
    then have last: "Suc idx \<noteq> n" using Cons.prems by (cases ps) auto
    have n: "n = Suc idx + length ps" using Cons.prems by simp
    show ?thesis
    proof (cases "isSpread p")
      case True
      have "propSpansFrom n idx (p # ps) (spans, cur) =
            propSpansFrom n (Suc idx) ps (spans @ (if cur \<noteq> [] then [cur] else []), [])"
        using True last by (simp add: Let_def)
      also have "\<dots> = (spans @ (if cur \<noteq> [] then [cur] else [])) @ splitRuns ps"
        using Cons.IH [OF False n, of "spans @ (if cur \<noteq> [] then [cur] else [])" "[]"]
          splitRuns_takeWhile [of ps]
        by simp
      finally show ?thesis using True by simp
    next
      case False
      have "propSpansFrom n idx (p # ps) (spans, cur) =
            propSpansFrom n (Suc idx) ps (spans, cur @ [p])"
        using False last by (simp add: Let_def)
      also have "\<dots> = spans @
         (if (cur @ [p]) @ takeWhile (\<lambda>q. \<not> isSpread q) ps = [] then []
          else [(cur @ [p]) @ takeWhile (\<lambda>q. \<not> isSpread q) ps]) @
         splitRuns (dropWhile (\<lambda>q. \<not> isSpread q) ps)"
        by (rule Cons.IH [OF \<open>ps \<noteq> []\<close> n])
      finally show ?thesis using False by simp
    qed
  qed
qed

lemma getDefinedPropSpans_runs: "getDefinedPropSpansOfObjectExpression props = splitRuns props"
proof (cases "props = []")
  case True
  then show ?thesis by (simp add: getDefinedPropSpansOfObjectExpression_def)
next
  case False
  from propSpansFrom_runs [OF False, of "length props" 0 "[]" "[]"] splitRuns_takeWhile [of props]
  show ?thesis by (simp add: getDefinedPropSpansOfObjectExpression_def)
qed

lemma filter_takeWhile_dropWhile:
  "filter P xs = takeWhile P xs @ filter P (dropWhile P xs)"
  by (induction xs) simp_all

lemma splitRuns_concat:
  "concat (splitRuns xs) = filter (\<lambda>p. \<not> isSpread p) xs"
proof (induction xs rule: splitRuns.induct)
  case 1
  then show ?case by simp
next
  case (2 p ps)
  show ?case
  proof (cases "isSpread p")
    case True
    with 2(1) show ?thesis by simp
  next
    case False
    have "concat (splitRuns (p # ps)) =
          p # takeWhile (\<lambda>q. \<not> isSpread q) ps @
          concat (splitRuns (dropWhile (\<lambda>q. \<not> isSpread q) ps))"
      using False by simp
    also have "\<dots> = p # takeWhile (\<lambda>q. \<not> isSpread q) ps @
          filter (\<lambda>p. \<not> isSpread p) (dropWhile (\<lambda>q. \<not> isSpread q) ps)"
      using 2(2) [OF False] by (simp only:)
    also have "\<dots> = p # filter (\<lambda>p. \<not> isSpread p) ps"
      by (simp only: filter_takeWhile_dropWhile [of "\<lambda>q. \<not> isSpread q" ps, symmetric])
    finally show ?thesis using False by simp
  qed
qed

lemma splitRuns_runs:
  "span \<in> set (splitRuns xs) \<Longrightarrow> span \<noteq> [] \<and> (\<forall>p \<in> set span. \<not> isSpread p)"
proof (induction xs rule: splitRuns.induct)
  case 1
  then show ?case by simp
next
  case (2 p ps)
  show ?case
  proof (cases "isSpread p")
    case True
    with 2(1) 2(3) show ?thesis by simp
  next
    case False
    with 2(3) have "span = p # takeWhile (\<lambda>q. \<not> isSpread q) ps \<or>
        span \<in> set (splitRuns (dropWhile (\<lambda>q. \<not> isSpread q) ps))"
      by simp
    then show ?thesis
    proof
      assume "span = p # takeWhile (\<lambda>q. \<not> isSpread q) ps"
      with False show ?thesis by (auto dest: set_takeWhileD)
    next
      assume "span \<in> set (splitRuns (dropWhile (\<lambda>q. \<not> isSpread q) ps))"
      with 2(2) [OF False] show ?thesis by blast
    qed
  qed
qed

lemma compareObjectProps_shape:
  "compareObjectProps p c (l, reps) =
   Inr (lastUnsorted l [p, c], reps @ spanReports [p, c])"
  by (simp add: compareObjectProps_def objectOrderReport_def propName_def Let_def)

lemma reducePairs_object:
  "xs \<noteq> [] \<Longrightarrow>
   reducePairs compareObjectProps xs (l, reps) = Inr (lastUnsorted l xs, reps @ spanReports xs)"
proof (induction xs arbitrary: l reps rule: induct_list012)
  case 1
  then show ?case by simp
next
  case (2 x)
  then show ?case by simp
next
  case (3 p c zs)
  have "reducePairs compareObjectProps (p # c # zs) (l, reps) =
        reducePairs compareObjectProps (c # zs) (lastUnsorted l [p, c], reps @ spanReports [p, c])"
    by (rule reducePairs_step) (rule compareObjectProps_shape)
  also have "\<dots> = Inr (lastUnsorted (lastUnsorted l [p, c]) (c # zs),
                       (reps @ spanReports [p, c]) @ spanReports (c # zs))"
    by (rule 3(2)) simp
  finally show ?case by simp
qed

lemma lastUnsorted_None:
  "lastUnsorted l xs = None \<longleftrightarrow> l = None \<and> spanReports xs = []"
  by (induction l xs rule: lastUnsorted.induct) auto

lemma short_span_reports:
  "length span < 2 \<Longrightarrow> spanReports span = [] \<and> spanFixReports fixOn source first span = []"
  by (induction span rule: induct_list012) (simp_all add: spanFixReports_def)

lemma checkSpan_reports:
  "checkSpan fixOn source first span reps =
   Inr (reps @ spanReports span @ spanFixReports fixOn source first span)"
proof (cases "length span < 2")
  case True
  then show ?thesis by (simp add: checkSpan_def short_span_reports)
next
  case False
  then have ne: "span \<noteq> []" by auto
  show ?thesis
    using False
    by (cases "lastUnsorted None span")
       (simp_all add: checkSpan_def reducePairs_object [OF ne] spanFixReports_def)
qed

lemma forEachSpan_reports:
  "forEachSpan fixOn source first spans reps =
   Inr (reps @ concat (map (\<lambda>span. spanReports span @ spanFixReports fixOn source first span) spans))"
  by (induction spans arbitrary: reps) (simp_all add: checkSpan_reports)

lemma objectSortKey_string:
  "objectSortKey p = Inr (Str (toLowerCase (propName p)))"
  by (simp add: objectSortKey_def propName_def)

lemma ObjectExpression_reports:
  "ObjectExpression opts source props =
   Inr (concat (map (\<lambda>span. spanReports span @
                        spanFixReports (case key_fix opts of None \<Rightarrow> False | Some v \<Rightarrow> v)
                          source (nthOpt props 0) span)
                  (splitRuns props)))"
proof (cases "length props < 2")
  case True
  then have "props = [] \<or> (\<exists>p. props = [p])"
    by (induction props rule: induct_list012) auto
  then show ?thesis
    by (auto simp add: ObjectExpression_def spanFixReports_def split: if_splits)
next
  case False
  then show ?thesis
    by (simp add: ObjectExpression_def forEachSpan_reports getDefinedPropSpans_runs)
qed

text \<open>
  What the rule does with the entries that it takes for spreads, those of the types
  \<open>SpreadProperty\<close> and \<open>ExperimentalSpreadProperty\<close>. The spans of an object literal
  are its maximal runs of entries between such spreads: no span is empty or holds one, and
  together they are the other entries, in order. \<open>ObjectExpression\<close> returns, span after
  span, the diagnostics of the adjacent pairs of the span and then the report with the fix
  of the span; a span of fewer than two properties gives neither. The fix of a span sorts
  the properties of that span stably by their names in lower case and replaces the range
  from the first to the last property of the span.
\<close>

lemma recognised_spread_runs:
  "getDefinedPropSpansOfObjectExpression props = splitRuns props \<and>
   (\<forall>span \<in> set (splitRuns props). span \<noteq> [] \<and> (\<forall>p \<in> set span. \<not> isSpread p)) \<and>
   concat (splitRuns props) = filter (\<lambda>p. \<not> isSpread p) props \<and>
   ObjectExpression opts source props =
     Inr (concat (map (\<lambda>span. spanReports span @
                          spanFixReports (case key_fix opts of None \<Rightarrow> False | Some v \<Rightarrow> v)
                            source (nthOpt props 0) span)
                    (splitRuns props))) \<and>
   (\<forall>span. length span < 2 \<longrightarrow>
      spanReports span = [] \<and> spanFixReports fixOn source first span = []) \<and>
   (\<forall>span. sortBy (getSorter objectSortKey) span =
             Inr (sort_key (\<lambda>p. toLowerCase (propName p)) span)) \<and>
   (\<forall>span edits. fixProperties objectSortKey source first span = Inr edits \<longrightarrow>
      span \<noteq> [] \<and> (\<exists>text. edits = [(spanOf (map prop_loc span), text)]))"
proof -
  have runs: "\<forall>span \<in> set (splitRuns props). span \<noteq> [] \<and> (\<forall>p \<in> set span. \<not> isSpread p)"
    using splitRuns_runs by blast
  have sorted: "\<forall>span. sortBy (getSorter objectSortKey) span =
             Inr (sort_key (\<lambda>p. toLowerCase (propName p)) span)"
    using sortBy_string_keys [of objectSortKey "\<lambda>p. toLowerCase (propName p)"] objectSortKey_string
    by blast
  have range: "\<forall>span edits. fixProperties objectSortKey source first span = Inr edits \<longrightarrow>
      span \<noteq> [] \<and> (\<exists>text. edits = [(spanOf (map prop_loc span), text)])"
  proof (intro allI impI)
    fix span edits
    assume "fixProperties objectSortKey source first span = Inr edits"
    then show "span \<noteq> [] \<and> (\<exists>text. edits = [(spanOf (map prop_loc span), text)])"
      using getSpanningRange_span [of prop_loc span]
      by (auto simp add: fixProperties_def bind_eq_Inr)
  qed
  from getDefinedPropSpans_runs [of props] runs splitRuns_concat [of props]
    ObjectExpression_reports [of opts source props] short_span_reports sorted range
  show ?thesis by blast
qed

text \<open>
  The literal \<^verbatim>\<open>const o = {...x, b, a, ...y, d, c}\<close> with spreads of the type
  \<open>SpreadProperty\<close> and fixing switched on: the spans are \<open>b, a\<close> and \<open>d, c\<close>; each gets
  one diagnostic and one fix, and the two fixes give
  \<^verbatim>\<open>const o = {...x, a, b, ...y, c, d}\<close>.
\<close>

lemma recognised_spread_example:
  "getDefinedPropSpansOfObjectExpression example_object =
     [[example_obj_b, example_obj_a], [example_obj_d, example_obj_c]] \<and>
   ObjectExpression \<lparr>key_fix = Some True\<rparr> example_object_source example_object =
     Inr [objectOrderReport example_obj_b example_obj_a,
          \<lparr>report_node = PropNode example_obj_a,
           message = ''Expected object properties to be sorted.'', data = [],
           fix_result = Some (Inr [((17, 21), ''a, b'')])\<rparr>,
          objectOrderReport example_obj_d example_obj_c,
          \<lparr>report_node = PropNode example_obj_c,
           message = ''Expected object properties to be sorted.'', data = [],
           fix_result = Some (Inr [((29, 33), ''c, d'')])\<rparr>] \<and>
   applyEdit (applyEdit example_object_source ((29, 33), ''c, d'')) ((17, 21), ''a, b'') =
     ''const o = {...x, a, b, ...y, c, d}''"
proof -
  have runs: "splitRuns example_object =
     [[example_obj_b, example_obj_a], [example_obj_d, example_obj_c]]"
    by code_simp
  have spans: "getDefinedPropSpansOfObjectExpression example_object =
     [[example_obj_b, example_obj_a], [example_obj_d, example_obj_c]]"
    using recognised_spread_runs [of example_object] by (simp only: runs)
  have run: "ObjectExpression \<lparr>key_fix = Some True\<rparr> example_object_source example_object =
     Inr [objectOrderReport example_obj_b example_obj_a,
          \<lparr>report_node = PropNode example_obj_a,
           message = ''Expected object properties to be sorted.'', data = [],
           fix_result = Some (Inr [((17, 21), ''a, b'')])\<rparr>,
          objectOrderReport example_obj_d example_obj_c,
          \<lparr>report_node = PropNode example_obj_c,
           message = ''Expected object properties to be sorted.'', data = [],
           fix_result = Some (Inr [((29, 33), ''c, d'')])\<rparr>]"
    by code_simp
  have edit: "applyEdit (applyEdit example_object_source ((29, 33), ''c, d'')) ((17, 21), ''a, b'') =
     ''const o = {...x, a, b, ...y, c, d}''"
    by code_simp
  from spans run edit show ?thesis by blast
qed

text \<open>
  C5 fails on the code. The rule takes an entry for a spread when its type is
  \<open>SpreadProperty\<close> or \<open>ExperimentalSpreadProperty\<close>, and not when it is
  \<open>SpreadElement\<close>, the type of a spread in a tree that follows ESTree (the test for rest
  elements of the pattern rule does list \<open>RestElement\<close>). For the literal of the claim
  with spreads of that type all six entries are one span: a diagnostic is made about
  \<open>...y\<close> against \<open>a\<close>, and the one fix reorders across both spreads, to
  \<^verbatim>\<open>const o = {...x, ...y, a, b, c, d}\<close>.
\<close>

theorem spread_element_not_a_barrier:
  "getDefinedPropSpansOfObjectExpression example_object_estree = [example_object_estree] \<and>
   ObjectExpression \<lparr>key_fix = Some True\<rparr> example_object_source example_object_estree =
     Inr [objectOrderReport example_obj_b example_obj_a,
          objectOrderReport example_obj_a example_spread_element_y,
          objectOrderReport example_obj_d example_obj_c,
          \<lparr>report_node = PropNode example_obj_c,
           message = ''Expected object properties to be sorted.'', data = [],
           fix_result = Some (Inr [((11, 33), ''...x, ...y, a, b, c, d'')])\<rparr>] \<and>
   applyEdit example_object_source ((11, 33), ''...x, ...y, a, b, c, d'') =
     ''const o = {...x, ...y, a, b, c, d}''"
  by code_simp

subsection \<open>C8, continued: the diagnostics and the fix under an unsupported value\<close>

lemma declarationReports_group:
  assumes "declarationSort \<noteq> ''import''" "declarationSort \<noteq> ''source''"
      and "getImportDeclarationSortIdx resolves c \<noteq> getImportDeclarationSortIdx resolves p"
  shows "declarationReports resolves declarationSort p c =
         Inr (if getImportDeclarationSortIdx resolves c < getImportDeclarationSortIdx resolves p
              then [groupReport resolves p c] else [])"
  using assms(3)
  by (simp add: declarationReports_def checkDeclarationOrder_def groupReport_def
        initial_state_def Let_def)

lemma compareImports_queue:
  "compareImports resolves declarationSort fx p c st = Inr st1 \<Longrightarrow>
   declarationsWithUnsortedSpecifiers st1 =
     (if specifierReports c \<noteq> [] \<and> fx then declarationsWithUnsortedSpecifiers st @ [c]
      else declarationsWithUnsortedSpecifiers st)"
  by (cases "declarationReports resolves declarationSort p c")
     (auto simp add: compareImports_shape)

lemma reducePairs_compareImports_queue:
  "reducePairs (compareImports resolves declarationSort fx) xs st = Inr st' \<Longrightarrow>
   \<forall>d \<in> set (tl xs). specifierReports d = [] \<Longrightarrow>
   declarationsWithUnsortedSpecifiers st' = declarationsWithUnsortedSpecifiers st"
proof (induction xs arbitrary: st rule: induct_list012)
  case 1
  then show ?case by simp
next
  case (2 x)
  then show ?case by simp
next
  case (3 p c zs)
  from 3(3) obtain st1 where step: "compareImports resolves declarationSort fx p c st = Inr st1"
    by (cases "compareImports resolves declarationSort fx p c st") simp_all
  have rest: "reducePairs (compareImports resolves declarationSort fx) (c # zs) st1 = Inr st'"
    using 3(3) reducePairs_step [of "compareImports resolves declarationSort fx" p c st st1 zs, OF step]
    by simp
  have "declarationsWithUnsortedSpecifiers st1 = declarationsWithUnsortedSpecifiers st"
    using compareImports_queue [OF step] 3(4) by simp
  moreover have "declarationsWithUnsortedSpecifiers st' = declarationsWithUnsortedSpecifiers st1"
    using 3(4) by (intro 3(2) [OF rest]) simp
  ultimately show ?case by simp
qed

lemma reducePairs_unsupported_reports:
  assumes "declarationSort \<noteq> ''import''" "declarationSort \<noteq> ''source''"
  shows "xs \<noteq> [] \<Longrightarrow> \<not> hasSameGroupPair resolves xs \<Longrightarrow>
    \<exists>st'. reducePairs (compareImports resolves declarationSort fx) xs st = Inr st' \<and>
          reports st' = reports st @ groupAndSpecifierReports resolves xs"
proof (induction xs arbitrary: st rule: induct_list012)
  case 1
  then show ?case by simp
next
  case (2 x)
  then show ?case by simp
next
  case (3 p c zs)
  from 3(4) have diff: "getImportDeclarationSortIdx resolves c \<noteq> getImportDeclarationSortIdx resolves p"
    and rest: "\<not> hasSameGroupPair resolves (c # zs)"
    by simp_all
  note rs = declarationReports_group [OF assms diff]
  from compareImports_reports [of resolves declarationSort fx p c st]
    compareImports_summary [OF rs, of fx st]
  obtain st1 where
    st1: "compareImports resolves declarationSort fx p c st = Inr st1"
    and reps: "reports st1 = reports st @
       (if getImportDeclarationSortIdx resolves c < getImportDeclarationSortIdx resolves p
        then [groupReport resolves p c] else []) @ specifierReports c"
    by (auto simp add: summary_def)
  have "c # zs \<noteq> []" by simp
  from 3(2) [OF this rest, of st1] obtain st' where
    st': "reducePairs (compareImports resolves declarationSort fx) (c # zs) st1 = Inr st'"
         "reports st' = reports st1 @ groupAndSpecifierReports resolves (c # zs)"
    by blast
  have "reducePairs (compareImports resolves declarationSort fx) (p # c # zs) st = Inr st'"
    using reducePairs_step [of "compareImports resolves declarationSort fx" p c st st1 zs, OF st1]
      st'(1) by simp
  with st'(2) reps show ?case by simp
qed

lemma runFixes_no_fix: "\<forall>x \<in> set xs. fix_result x = None \<Longrightarrow> runFixes xs = Inr xs"
  by (induction xs) simp_all

lemma runFixes_last_throws:
  "\<forall>x \<in> set xs. fix_result x = None \<Longrightarrow> fix_result y = Some (Inl e) \<Longrightarrow>
   runFixes (xs @ [y]) = Inl e"
  by (induction xs) simp_all

lemma groupAndSpecifierReports_short:
  "length xs < 2 \<Longrightarrow> groupAndSpecifierReports resolves xs = []"
  by (induction xs rule: induct_list012) simp_all

text \<open>
  C8 (as amended). With a value of \<open>declarationSort\<close> other than \<open>import\<close> and \<open>source\<close>:
  when two adjacent import declarations are in the same group, \<open>Program\<close> throws the
  error \<open>Unexpected sort strategy\<close>. When no two adjacent import declarations are, the
  scan ends without an exception and the reports without a fix are the group diagnostics
  and the specifier diagnostics of the adjacent pairs; if a fix is then offered and no
  declaration is queued for the fix of its specifiers, the \<open>fix\<close> function throws the
  same error, so that under a host that calls it inside \<open>context.report\<close> the traversal
  ends with that error too. Where no report carries a fix, the traversal ends without an
  error also under such a host.
\<close>

theorem unsupported_sort_strategy:
  assumes "opt_declarationSort opts = Some declarationSort"
      and "declarationSort \<noteq> ''import''" and "declarationSort \<noteq> ''source''"
  shows "(hasSameGroupPair resolves (declsOf body) \<longrightarrow>
            Program resolves opts source body = Inl UnexpectedSortStrategy \<and>
            withFixesRun (Program resolves opts source body) = Inl UnexpectedSortStrategy) \<and>
         (\<not> hasSameGroupPair resolves (declsOf body) \<longrightarrow>
            (\<exists>rs. Program resolves opts source body = Inr rs \<and>
               filter (\<lambda>x. fix_result x = None) rs =
                 groupAndSpecifierReports resolves (declsOf body) \<and>
               ((\<forall>d \<in> set (tl (declsOf body)). specifierReports d = []) \<longrightarrow>
                  (\<forall>x \<in> set rs. fix_result x = None \<or>
                                  fix_result x = Some (Inl UnexpectedSortStrategy))) \<and>
               ((\<exists>x \<in> set rs. fix_result x = Some (Inl UnexpectedSortStrategy)) \<longrightarrow>
                  withFixesRun (Program resolves opts source body) = Inl UnexpectedSortStrategy) \<and>
               ((\<forall>x \<in> set rs. fix_result x = None) \<longrightarrow>
                  withFixesRun (Program resolves opts source body) = Inr rs)))"
proof (cases "length (declsOf body) < 2")
  case True
  then have none: "\<not> hasSameGroupPair resolves (declsOf body)"
    by (rule hasSameGroupPair_short)
  have empty: "groupAndSpecifierReports resolves (declsOf body) = []"
    using True by (rule groupAndSpecifierReports_short)
  have "Program resolves opts source body = Inr []"
    using True by (rule Program_few_imports)
  with none empty show ?thesis by (simp add: withFixesRun_def)
next
  case False
  then have len: "2 \<le> length body" "2 \<le> length (declsOf body)"
    using length_declsOf [of body] by simp_all
  then have ne: "declsOf body \<noteq> []" by auto
  obtain nif fixable where io: "importsOf body = (declsOf body, nif, fixable)"
    using importsOf_fst [of body] by (cases "importsOf body") auto
  let ?run = "reducePairs (compareImports resolves declarationSort fixable) (declsOf body)
                initial_state"
  have same: "Program resolves opts source body = Inl UnexpectedSortStrategy \<and>
              withFixesRun (Program resolves opts source body) = Inl UnexpectedSortStrategy"
    if "hasSameGroupPair resolves (declsOf body)"
    using that reducePairs_unsupported [OF assms(2,3) ne, of resolves fixable initial_state]
    by (simp add: Program_scan [OF io len] assms(1) withFixesRun_def)
  have other: "\<exists>rs. Program resolves opts source body = Inr rs \<and>
               filter (\<lambda>x. fix_result x = None) rs =
                 groupAndSpecifierReports resolves (declsOf body) \<and>
               ((\<forall>d \<in> set (tl (declsOf body)). specifierReports d = []) \<longrightarrow>
                  (\<forall>x \<in> set rs. fix_result x = None \<or>
                                  fix_result x = Some (Inl UnexpectedSortStrategy))) \<and>
               ((\<exists>x \<in> set rs. fix_result x = Some (Inl UnexpectedSortStrategy)) \<longrightarrow>
                  withFixesRun (Program resolves opts source body) = Inl UnexpectedSortStrategy) \<and>
               ((\<forall>x \<in> set rs. fix_result x = None) \<longrightarrow>
                  withFixesRun (Program resolves opts source body) = Inr rs)"
    if none: "\<not> hasSameGroupPair resolves (declsOf body)"
  proof -
    from reducePairs_unsupported_reports [OF assms(2,3) ne none, of fixable initial_state]
    obtain st where st: "?run = Inr st"
      and reps: "reports st = groupAndSpecifierReports resolves (declsOf body)"
      by (auto simp add: initial_state_def)
    have nofix: "\<forall>x \<in> set (reports st). fix_result x = None"
      using st by (rule reducePairs_compareImports_no_fix) (simp add: initial_state_def)
    then have keep: "filter (\<lambda>x. fix_result x = None) (reports st) = reports st"
      by (simp add: filter_id_conv)
    have queue: "declarationsWithUnsortedSpecifiers st = []"
      if "\<forall>d \<in> set (tl (declsOf body)). specifierReports d = []"
      using reducePairs_compareImports_queue [OF st that] by (simp add: initial_state_def)
    have throws: "importsFix resolves declarationSort source (declsOf body) [] =
        Inl UnexpectedSortStrategy"
      using fixDeclarations_unsupported [OF assms(2,3) len(2), of resolves source]
      by (simp add: importsFix_def)
    show ?thesis
    proof (cases "lastUnsortedDeclaration st")
      case None
      then have "Program resolves opts source body = Inr (reports st)"
        by (simp add: Program_scan [OF io len] assms(1) st)
      with nofix keep reps show ?thesis
        by (auto simp add: withFixesRun_def runFixes_no_fix)
    next
      case (Some d)
      show ?thesis
      proof (cases "(case opt_fix opts of None \<Rightarrow> False | Some v \<Rightarrow> v) \<and> fixable")
        case False
        then have "Program resolves opts source body = Inr (reports st)"
          using Some by (auto simp add: Program_scan [OF io len] assms(1) st)
        with nofix keep reps show ?thesis
          by (auto simp add: withFixesRun_def runFixes_no_fix)
      next
        case True
        let ?fix = "\<lparr>report_node = DeclNode d,
                       message = ''Expected imports to be sorted.'',
                       data = [],
                       fix_result = Some (importsFix resolves declarationSort source (declsOf body)
                                            (declarationsWithUnsortedSpecifiers st))\<rparr>"
        have prog: "Program resolves opts source body = Inr (reports st @ [?fix])"
          using True Some st by (simp add: Program_scan [OF io len] assms(1))
        have 1: "filter (\<lambda>x. fix_result x = None) (reports st @ [?fix]) =
                 groupAndSpecifierReports resolves (declsOf body)"
          using keep reps by simp
        have 2: "\<forall>x \<in> set (reports st @ [?fix]). fix_result x = None \<or>
                                  fix_result x = Some (Inl UnexpectedSortStrategy)"
          if "\<forall>d \<in> set (tl (declsOf body)). specifierReports d = []"
          using nofix queue [OF that] throws by auto
        have 3: "withFixesRun (Program resolves opts source body) = Inl UnexpectedSortStrategy"
          if "\<exists>x \<in> set (reports st @ [?fix]). fix_result x = Some (Inl UnexpectedSortStrategy)"
        proof -
          from that nofix have "fix_result ?fix = Some (Inl UnexpectedSortStrategy)"
            by auto
          from runFixes_last_throws [OF nofix this] show ?thesis
            by (simp add: prog withFixesRun_def)
        qed
        have 4: "withFixesRun (Program resolves opts source body) = Inr (reports st @ [?fix])"
          if "\<forall>x \<in> set (reports st @ [?fix]). fix_result x = None"
          using that by simp
        from prog 1 2 3 4 show ?thesis by blast
      qed
    qed
  qed
  from same other show ?thesis by blast
qed

text \<open>
  The amended C8 at three modules under the value \<open>name\<close>: two imports of the internal
  group, where \<open>Program\<close> throws; an import of a package followed by a side effect import,
  where the scan makes the group diagnostic and the fix throws; and the module of the
  counterexample, which ends without an error.
\<close>

theorem unsupported_sort_strategy_witness:
  "Program (\<lambda>_. False) \<lparr>opt_declarationSort = Some ''name'', opt_fix = Some True\<rparr>
     example_interleaved_source example_interleaved_body = Inl UnexpectedSortStrategy \<and>
   Program (\<lambda>_. True) \<lparr>opt_declarationSort = Some ''name'', opt_fix = Some True\<rparr>
     example_groups_swapped_source
     [ImportDeclaration example_react_first, ImportDeclaration example_side_effect_second] =
     Inr [groupReport (\<lambda>_. True) example_react_first example_side_effect_second,
          \<lparr>report_node = DeclNode example_side_effect_second,
           message = ''Expected imports to be sorted.'', data = [],
           fix_result = Some (Inl UnexpectedSortStrategy)\<rparr>] \<and>
   withFixesRun
     (Program (\<lambda>_. True) \<lparr>opt_declarationSort = Some ''name'', opt_fix = Some True\<rparr>
        example_groups_swapped_source
        [ImportDeclaration example_react_first, ImportDeclaration example_side_effect_second]) =
     Inl UnexpectedSortStrategy \<and>
   withFixesRun
     (Program (\<lambda>_. True) \<lparr>opt_declarationSort = Some ''name'', opt_fix = Some True\<rparr>
        example_two_groups_source
        [ImportDeclaration example_side_effect, ImportDeclaration example_react_second]) =
     Inr []"
proof -
  let ?opts = "\<lparr>opt_declarationSort = Some ''name'', opt_fix = Some True\<rparr>"
  let ?swapped = "[ImportDeclaration example_react_first, ImportDeclaration example_side_effect_second]"
  let ?ordered = "[ImportDeclaration example_side_effect, ImportDeclaration example_react_second]"
  have opt: "opt_declarationSort ?opts = Some ''name''"
    by simp
  have ne: "''name'' \<noteq> ''import''" "''name'' \<noteq> ''source''" by simp_all
  have same: "hasSameGroupPair (\<lambda>_. False) (declsOf example_interleaved_body)"
    by code_simp
  have swapped: "\<not> hasSameGroupPair (\<lambda>_. True) (declsOf ?swapped)"
    by code_simp
  have ordered: "\<not> hasSameGroupPair (\<lambda>_. True) (declsOf ?ordered)"
    by code_simp
  have run_swapped: "Program (\<lambda>_. True) ?opts example_groups_swapped_source ?swapped =
     Inr [groupReport (\<lambda>_. True) example_react_first example_side_effect_second,
          \<lparr>report_node = DeclNode example_side_effect_second,
           message = ''Expected imports to be sorted.'', data = [],
           fix_result = Some (Inl UnexpectedSortStrategy)\<rparr>]"
    by code_simp
  have run_ordered: "Program (\<lambda>_. True) ?opts example_two_groups_source ?ordered = Inr []"
    by code_simp
  have 1: "Program (\<lambda>_. False) ?opts example_interleaved_source example_interleaved_body =
      Inl UnexpectedSortStrategy"
    using unsupported_sort_strategy [OF opt ne, of "\<lambda>_. False" example_interleaved_body
            example_interleaved_source] same
    by blast
  have 2: "withFixesRun (Program (\<lambda>_. True) ?opts example_groups_swapped_source ?swapped) =
      Inl UnexpectedSortStrategy"
    using unsupported_sort_strategy [OF opt ne, of "\<lambda>_. True" ?swapped
            example_groups_swapped_source] swapped
    by (auto simp add: run_swapped)
  have 3: "withFixesRun (Program (\<lambda>_. True) ?opts example_two_groups_source ?ordered) = Inr []"
    using unsupported_sort_strategy [OF opt ne, of "\<lambda>_. True" ?ordered
            example_two_groups_source] ordered
    by (auto simp add: run_ordered)
  from 1 run_swapped 2 3 show ?thesis by blast
qed

subsection \<open>C2, continued: the text of the fix that reorders declarations\<close>













end
